theory Spec2Isabelle
  imports Complex_Main "HOL-Library.Sublist"
begin

section \<open>The record store\<close>

text \<open>
  \<^verbatim>\<open>FinanceData.__init__\<close> creates four parallel lists. A month label is a Python
  string, or \<^verbatim>\<open>None\<close> when \<^verbatim>\<open>csv.DictReader\<close> filled a missing cell with its
  \<^verbatim>\<open>restval\<close>; the label is therefore a \<open>string option\<close>. Budgets and amounts are
  Python floats, modelled as real numbers: the infinities and NaN are outside the model,
  and no statement below depends on rounding. An expense or income dictionary is an
  association list in insertion order.
\<close>

type_synonym amounts = "(string \<times> real) list"

record finance_data =
  months :: "string option list"
  budgets_data :: "real list"
  expenses_data :: "amounts list"
  incomes_data :: "amounts list"

definition init :: finance_data where
  "init = \<lparr>months = [], budgets_data = [], expenses_data = [], incomes_data = []\<rparr>"

datatype py_error =
  KeyError | ValueError | TypeError | IndexError | EOFError | FileNotFoundError
  | IsADirectoryError | PermissionError | UnicodeEncodeError

datatype outcome = Returned | Raised py_error

section \<open>Python helpers\<close>

text \<open>\<^verbatim>\<open>d[k] = v\<close> on an insertion-ordered dictionary: an existing key keeps its place.\<close>

fun dict_set :: "('k \<times> 'v) list \<Rightarrow> 'k \<Rightarrow> 'v \<Rightarrow> ('k \<times> 'v) list" where
  "dict_set [] k v = [(k, v)]"
| "dict_set ((k', v') # d) k v =
     (if k' = k then (k, v) # d else (k', v') # dict_set d k v)"

text \<open>\<^verbatim>\<open>sub in s\<close> on strings.\<close>

fun str_contains :: "string \<Rightarrow> string \<Rightarrow> bool" where
  "str_contains sub [] = (sub = [])"
| "str_contains sub (c # cs) = (prefix sub (c # cs) \<or> str_contains sub cs)"

text \<open>
  \<^verbatim>\<open>float(x)\<close> for a cell of a row: \<^verbatim>\<open>None\<close> is a \<^verbatim>\<open>TypeError\<close>, a string that is
  not a number a \<^verbatim>\<open>ValueError\<close>. The parser of numerals itself is the parameter
  \<open>pyfloat\<close> (\<open>None\<close> where Python's \<^verbatim>\<open>float\<close> rejects the string).
\<close>

definition float_cell :: "(string \<Rightarrow> real option) \<Rightarrow> string option \<Rightarrow> py_error + real" where
  "float_cell pyfloat c =
     (case c of
        None \<Rightarrow> Inl TypeError
      | Some t \<Rightarrow> (case pyfloat t of None \<Rightarrow> Inl ValueError | Some x \<Rightarrow> Inr x))"

section \<open>csv.DictReader\<close>

text \<open>
  The text of a file is not modelled: a file is what successive \<^verbatim>\<open>next(reader)\<close> calls
  of \<^verbatim>\<open>csv.reader\<close> give for it, a row of strings or \<^verbatim>\<open>csv.Error\<close>, ending with
  \<^verbatim>\<open>StopIteration\<close>. A path names such a file or nothing.
\<close>

datatype reader_event = Row "string list" | CsvError

type_synonym files = "string \<Rightarrow> reader_event list option"

text \<open>
  A row as \<^verbatim>\<open>DictReader.__next__\<close> returns it: the cells under the field names, a
  missing cell being \<^verbatim>\<open>None\<close>, and the surplus cells of a row longer than the header
  under the key \<^verbatim>\<open>None\<close>, inserted last.
\<close>

record csv_row =
  named :: "(string \<times> string option) list"
  surplus :: "string list option"

fun dict_zip :: "(string \<times> string option) list \<Rightarrow> string list \<Rightarrow> string list
    \<Rightarrow> (string \<times> string option) list" where
  "dict_zip d (k # ks) (v # vs) = dict_zip (dict_set d k (Some v)) ks vs"
| "dict_zip d _ _ = d"

fun fill_restval :: "(string \<times> string option) list \<Rightarrow> string list
    \<Rightarrow> (string \<times> string option) list" where
  "fill_restval d [] = d"
| "fill_restval d (k # ks) = fill_restval (dict_set d k None) ks"

definition dict_row :: "string list \<Rightarrow> string list \<Rightarrow> csv_row" where
  "dict_row fieldnames row =
     (let d = dict_zip [] fieldnames row;
          lf = length fieldnames;
          lr = length row
      in if lf < lr then \<lparr>named = d, surplus = Some (drop lf row)\<rparr>
         else if lf > lr then \<lparr>named = fill_restval d (drop lr fieldnames), surplus = None\<rparr>
         else \<lparr>named = d, surplus = None\<rparr>)"

section \<open>Ingestion from a CSV file\<close>

text \<open>
  \<^verbatim>\<open>{k: float(row[k]) for k in row.keys() if keep(k)}\<close> over the string keys of a
  row, in order; the first failing conversion raises.
\<close>

fun float_items :: "(string \<Rightarrow> real option) \<Rightarrow> (string \<Rightarrow> bool)
    \<Rightarrow> (string \<times> string option) list \<Rightarrow> string list \<Rightarrow> py_error + amounts" where
  "float_items pyfloat keep d [] = Inr []"
| "float_items pyfloat keep d (k # ks) =
     (if keep k then
        (case map_of d k of
           None \<Rightarrow> Inl KeyError
         | Some c \<Rightarrow>
             (case float_cell pyfloat c of
                Inl e \<Rightarrow> Inl e
              | Inr x \<Rightarrow>
                  (case float_items pyfloat keep d ks of
                     Inl e \<Rightarrow> Inl e
                   | Inr r \<Rightarrow> Inr ((k, x) # r))))
      else float_items pyfloat keep d ks)"

text \<open>
  Line 38. The key \<^verbatim>\<open>None\<close> of a row with surplus cells passes the filter and
  \<^verbatim>\<open>float\<close> of its list raises \<^verbatim>\<open>TypeError\<close>.
\<close>

definition row_expenses :: "(string \<Rightarrow> real option) \<Rightarrow> csv_row \<Rightarrow> py_error + amounts" where
  "row_expenses pyfloat row =
     (case float_items pyfloat (\<lambda>category. category \<noteq> ''Month'' \<and> category \<noteq> ''Budget'')
             (named row) (map fst (named row)) of
        Inl e \<Rightarrow> Inl e
      | Inr d \<Rightarrow> (case surplus row of None \<Rightarrow> Inr d | Some _ \<Rightarrow> Inl TypeError))"

text \<open>Line 39. \<^verbatim>\<open>'Income' in None\<close> raises \<^verbatim>\<open>TypeError\<close>.\<close>

definition row_incomes :: "(string \<Rightarrow> real option) \<Rightarrow> csv_row \<Rightarrow> py_error + amounts" where
  "row_incomes pyfloat row =
     (case float_items pyfloat (\<lambda>source. str_contains ''Income'' source)
             (named row) (map fst (named row)) of
        Inl e \<Rightarrow> Inl e
      | Inr d \<Rightarrow> (case surplus row of None \<Rightarrow> Inr d | Some _ \<Rightarrow> Inl TypeError))"

text \<open>
  The body of the loop, lines 35 to 42. The appends of lines 35 and 36 stay in the store
  when a later line raises.
\<close>

definition import_row :: "(string \<Rightarrow> real option) \<Rightarrow> csv_row \<Rightarrow> finance_data
    \<Rightarrow> outcome \<times> finance_data" where
  "import_row pyfloat row s =
     (case map_of (named row) ''Month'' of
        None \<Rightarrow> (Raised KeyError, s)
      | Some m \<Rightarrow>
          (let s1 = s\<lparr>months := months s @ [m]\<rparr> in
           case map_of (named row) ''Budget'' of
             None \<Rightarrow> (Raised KeyError, s1)
           | Some c \<Rightarrow>
               (case float_cell pyfloat c of
                  Inl e \<Rightarrow> (Raised e, s1)
                | Inr b \<Rightarrow>
                    (let s2 = s1\<lparr>budgets_data := budgets_data s1 @ [b]\<rparr> in
                     case row_expenses pyfloat row of
                       Inl e \<Rightarrow> (Raised e, s2)
                     | Inr expenses \<Rightarrow>
                         (case row_incomes pyfloat row of
                            Inl e \<Rightarrow> (Raised e, s2)
                          | Inr incomes \<Rightarrow>
                              (Returned,
                               s2\<lparr>expenses_data := expenses_data s2 @ [expenses],
                                  incomes_data := incomes_data s2 @ [incomes]\<rparr>))))))"

text \<open>
  \<^verbatim>\<open>for row in reader\<close>: \<^verbatim>\<open>DictReader\<close> skips the empty rows; \<^verbatim>\<open>csv.Error\<close> is
  caught at line 45, its message printed, and the call returns; any other exception
  leaves the call. The result carries what was printed.
\<close>

definition csv_error_msg :: string where
  "csv_error_msg = ''Error reading CSV. Please check the file format.''"

definition not_found_msg :: "string \<Rightarrow> string" where
  "not_found_msg input_csv = ''Error: File '' @ input_csv @ '' not found.''"

fun import_rows :: "(string \<Rightarrow> real option) \<Rightarrow> string list \<Rightarrow> reader_event list
    \<Rightarrow> finance_data \<Rightarrow> outcome \<times> finance_data \<times> string list" where
  "import_rows pyfloat fieldnames [] s = (Returned, s, [])"
| "import_rows pyfloat fieldnames (CsvError # evs) s = (Returned, s, [csv_error_msg])"
| "import_rows pyfloat fieldnames (Row r # evs) s =
     (if r = [] then import_rows pyfloat fieldnames evs s
      else (case import_row pyfloat (dict_row fieldnames r) s of
              (Returned, s') \<Rightarrow> import_rows pyfloat fieldnames evs s'
            | (Raised e, s') \<Rightarrow> (Raised e, s', [])))"



text \<open>
  Lines 31 to 46. The first row read is the header, whatever it holds; a file with no
  row at all has no record.
\<close>

definition collect_csv :: "(string \<Rightarrow> real option) \<Rightarrow> files \<Rightarrow> string \<Rightarrow> finance_data
    \<Rightarrow> outcome \<times> finance_data \<times> string list" where
  "collect_csv pyfloat fs input_csv s =
     (case fs input_csv of
        None \<Rightarrow> (Returned, s, [not_found_msg input_csv])
      | Some [] \<Rightarrow> (Returned, s, [])
      | Some (CsvError # evs) \<Rightarrow> (Returned, s, [csv_error_msg])
      | Some (Row fieldnames # evs) \<Rightarrow> import_rows pyfloat fieldnames evs s)"

section \<open>Interactive ingestion\<close>

text \<open>
  Standard input is the list of the lines still to be read; \<^verbatim>\<open>input\<close> on an exhausted
  input raises \<^verbatim>\<open>EOFError\<close>. Each call returns the lines left and what it printed,
  the prompts included.
\<close>

definition invalid_msg :: string where
  "invalid_msg = ''Invalid input. Please enter a number.''"

definition negative_msg :: string where
  "negative_msg = ''Please enter a non-negative value.''"

text \<open>\<^verbatim>\<open>_get_input\<close>, lines 66 to 78: the loop ends only at a number that is not negative.\<close>

fun get_input :: "(string \<Rightarrow> real option) \<Rightarrow> string \<Rightarrow> string list
    \<Rightarrow> (py_error + real) \<times> string list \<times> string list" where
  "get_input pyfloat prompt [] = (Inl EOFError, [], [prompt])"
| "get_input pyfloat prompt (l # ls) =
     (case pyfloat l of
        None \<Rightarrow>
          (case get_input pyfloat prompt ls of
             (r, rest, out) \<Rightarrow> (r, rest, prompt # invalid_msg # out))
      | Some v \<Rightarrow>
          (if v \<ge> 0 then (Inr v, ls, [prompt])
           else (case get_input pyfloat prompt ls of
                   (r, rest, out) \<Rightarrow> (r, rest, prompt # negative_msg # out))))"

definition digit_char :: "nat \<Rightarrow> char" where
  "digit_char d = ''0123456789'' ! d"

fun str_nat :: "nat \<Rightarrow> string" where
  "str_nat n = (if n < 10 then [digit_char n] else str_nat (n div 10) @ [digit_char (n mod 10)])"

declare str_nat.simps [simp del]

text \<open>The body of the loop of lines 48 to 64, for one month number.\<close>

definition collect_month :: "(string \<Rightarrow> real option) \<Rightarrow> nat \<Rightarrow> finance_data \<Rightarrow> string list
    \<Rightarrow> outcome \<times> finance_data \<times> string list \<times> string list" where
  "collect_month pyfloat month s inp =
     (let s1 = s\<lparr>months := months s @ [Some (str_nat month @ ''/2023'')]\<rparr> in
      case get_input pyfloat (''Enter budget for month '' @ str_nat month @ '': '') inp of
        (Inl e, inp1, out1) \<Rightarrow> (Raised e, s1, inp1, out1)
      | (Inr budget, inp1, out1) \<Rightarrow>
     (let s2 = s1\<lparr>budgets_data := budgets_data s1 @ [budget]\<rparr> in
      case get_input pyfloat
             (''Enter expenses for extras in month '' @ str_nat month @ '': '') inp1 of
        (Inl e, inp2, out2) \<Rightarrow> (Raised e, s2, inp2, out1 @ out2)
      | (Inr extras, inp2, out2) \<Rightarrow>
     (case get_input pyfloat
             (''Enter expenses for Utilities in month '' @ str_nat month @ '': '') inp2 of
        (Inl e, inp3, out3) \<Rightarrow> (Raised e, s2, inp3, out1 @ out2 @ out3)
      | (Inr utilities, inp3, out3) \<Rightarrow>
     (case get_input pyfloat
             (''Enter income from Salary in month '' @ str_nat month @ '': '') inp3 of
        (Inl e, inp4, out4) \<Rightarrow> (Raised e, s2, inp4, out1 @ out2 @ out3 @ out4)
      | (Inr salary, inp4, out4) \<Rightarrow>
     (case get_input pyfloat
             (''Enter income from Investments in month '' @ str_nat month @ '': '') inp4 of
        (Inl e, inp5, out5) \<Rightarrow> (Raised e, s2, inp5, out1 @ out2 @ out3 @ out4 @ out5)
      | (Inr investments, inp5, out5) \<Rightarrow>
          (Returned,
           s2\<lparr>expenses_data := expenses_data s2 @ [[(''Extras'', extras), (''Utilities'', utilities)]],
              incomes_data := incomes_data s2 @ [[(''Salary'', salary), (''Investments'', investments)]]\<rparr>,
           inp5, out1 @ out2 @ out3 @ out4 @ out5))))))"

fun collect_months :: "(string \<Rightarrow> real option) \<Rightarrow> nat list \<Rightarrow> finance_data \<Rightarrow> string list
    \<Rightarrow> outcome \<times> finance_data \<times> string list \<times> string list" where
  "collect_months pyfloat [] s inp = (Returned, s, inp, [])"
| "collect_months pyfloat (month # ms) s inp =
     (case collect_month pyfloat month s inp of
        (Returned, s', inp', out) \<Rightarrow>
          (case collect_months pyfloat ms s' inp' of
             (r, s'', inp'', out') \<Rightarrow> (r, s'', inp'', out @ out'))
      | (Raised e, s', inp', out) \<Rightarrow> (Raised e, s', inp', out))"

text \<open>
  \<^verbatim>\<open>collect_monthly_data\<close>: \<^verbatim>\<open>if input_csv\<close> is false for \<^verbatim>\<open>None\<close> and for the
  empty string, and then the twelve months are prompted for.
\<close>

definition collect_monthly_data :: "(string \<Rightarrow> real option) \<Rightarrow> files \<Rightarrow> string option
    \<Rightarrow> finance_data \<Rightarrow> string list \<Rightarrow> outcome \<times> finance_data \<times> string list \<times> string list" where
  "collect_monthly_data pyfloat fs input_csv s inp =
     (if input_csv \<noteq> None \<and> input_csv \<noteq> Some []
      then (case collect_csv pyfloat fs (the input_csv) s of (r, s', out) \<Rightarrow> (r, s', inp, out))
      else collect_months pyfloat [1..<13] s inp)"

section \<open>The flat table: export and data frame\<close>

datatype pyval = PNone | PStr string | PFloat real

type_synonym table = "(string \<times> pyval list) list"

definition label_val :: "string option \<Rightarrow> pyval" where
  "label_val m = (case m of None \<Rightarrow> PNone | Some t \<Rightarrow> PStr t)"

text \<open>\<^verbatim>\<open>[d[key] for d in dicts]\<close>: a dictionary without the key raises \<^verbatim>\<open>KeyError\<close>.\<close>

fun column_of :: "string \<Rightarrow> amounts list \<Rightarrow> py_error + pyval list" where
  "column_of key [] = Inr []"
| "column_of key (d # ds) =
     (case map_of d key of
        None \<Rightarrow> Inl KeyError
      | Some x \<Rightarrow> (case column_of key ds of Inl e \<Rightarrow> Inl e | Inr c \<Rightarrow> Inr (PFloat x # c)))"

text \<open>\<^verbatim>\<open>for key in keys: data[key] = [d[key] for d in dicts]\<close>.\<close>

fun add_columns :: "string list \<Rightarrow> amounts list \<Rightarrow> table \<Rightarrow> py_error + table" where
  "add_columns [] ds data = Inr data"
| "add_columns (key # keys) ds data =
     (case column_of key ds of
        Inl e \<Rightarrow> Inl e
      | Inr c \<Rightarrow> add_columns keys ds (dict_set data key c))"

text \<open>\<^verbatim>\<open>zip(*columns)\<close>: the rows, as many as the shortest column has cells.\<close>

fun zip_star :: "'a list list \<Rightarrow> 'a list list" where
  "zip_star [] = []"
| "zip_star [c] = map (\<lambda>x. [x]) c"
| "zip_star (c # cs) = map (\<lambda>(x, r). x # r) (zip c (zip_star cs))"

text \<open>
  What \<^verbatim>\<open>csv.writer\<close> writes for a cell: \<^verbatim>\<open>None\<close> as the empty string, a string as it
  is, a float by \<^verbatim>\<open>str\<close>, the parameter \<open>float_str\<close>.
\<close>

definition csv_field :: "(real \<Rightarrow> string) \<Rightarrow> pyval \<Rightarrow> string" where
  "csv_field float_str v =
     (case v of PNone \<Rightarrow> [] | PStr t \<Rightarrow> t | PFloat x \<Rightarrow> float_str x)"

text \<open>
  The header and the rows handed to \<^verbatim>\<open>csv.writer\<close> at lines 142 and 143, as the
  strings it writes for them.
\<close>

definition table_rows :: "(real \<Rightarrow> string) \<Rightarrow> table \<Rightarrow> string list list" where
  "table_rows float_str data =
     map fst data # map (map (csv_field float_str)) (zip_star (map snd data))"

text \<open>
  Lines 140 to 145 against the file system, which is the parameter \<open>write_csv\<close>: for a
  path, what the path held before and the rows handed to the writer, it gives how the
  \<^verbatim>\<open>with\<close> block ends, by returning or by an exception of \<^verbatim>\<open>open\<close> or of the
  writer, and what the path holds afterwards, as \<^verbatim>\<open>csv.reader\<close> on a file opened in
  text mode will read it (nothing when no file is there). The confirmation is printed
  only after the block has ended normally.
\<close>

type_synonym writer =
  "string \<Rightarrow> reader_event list option \<Rightarrow> string list list \<Rightarrow> outcome \<times> reader_event list option"

definition write_file :: "writer \<Rightarrow> string \<Rightarrow> string list list \<Rightarrow> files
    \<Rightarrow> outcome \<times> files \<times> string list" where
  "write_file write_csv filename rows fs =
     (case write_csv filename (fs filename) rows of
        (Returned, content) \<Rightarrow>
          (Returned, fs(filename := content), [''Data saved to '' @ filename])
      | (Raised e, content) \<Rightarrow> (Raised e, fs(filename := content), []))"

text \<open>
  \<^verbatim>\<open>save_data\<close>, lines 129 to 145. The result carries the files afterwards and what
  was printed.
\<close>

definition save_data :: "writer \<Rightarrow> (real \<Rightarrow> string) \<Rightarrow> finance_data \<Rightarrow> string \<Rightarrow> files
    \<Rightarrow> outcome \<times> files \<times> string list" where
  "save_data write_csv float_str s filename fs =
     (let data = [(''Month'', map label_val (months s)),
                  (''Budget'', map PFloat (budgets_data s))] in
      case expenses_data s of
        [] \<Rightarrow> (Raised IndexError, fs, [])
      | e0 # _ \<Rightarrow>
     (case add_columns (map fst e0) (expenses_data s) data of
        Inl e \<Rightarrow> (Raised e, fs, [])
      | Inr data1 \<Rightarrow>
     (case incomes_data s of
        [] \<Rightarrow> (Raised IndexError, fs, [])
      | i0 # _ \<Rightarrow>
     (case add_columns (map fst i0) (incomes_data s) data1 of
        Inl e \<Rightarrow> (Raised e, fs, [])
      | Inr data2 \<Rightarrow> write_file write_csv filename (table_rows float_str data2) fs))))"

text \<open>
  \<^verbatim>\<open>to_dataframe\<close>, lines 154 to 165. \<^verbatim>\<open>pd.DataFrame\<close> of a dictionary of lists
  keeps the columns in order and raises \<^verbatim>\<open>ValueError\<close> when they differ in length.
\<close>

definition to_dataframe :: "finance_data \<Rightarrow> py_error + table" where
  "to_dataframe s =
     (let data = [(''Month'', map label_val (months s)),
                  (''Budget'', map PFloat (budgets_data s))] in
      case expenses_data s of
        [] \<Rightarrow> Inl IndexError
      | e0 # _ \<Rightarrow>
     (case add_columns (map fst e0) (expenses_data s) data of
        Inl e \<Rightarrow> Inl e
      | Inr data1 \<Rightarrow>
     (case incomes_data s of
        [] \<Rightarrow> Inl IndexError
      | i0 # _ \<Rightarrow>
     (case add_columns (map fst i0) (incomes_data s) data1 of
        Inl e \<Rightarrow> Inl e
      | Inr data2 \<Rightarrow>
          (if \<forall>c \<in> set (map snd data2). length c = length (snd (hd data2))
           then Inr data2 else Inl ValueError)))))"

text \<open>
  The order of the keys of a dictionary with keys \<open>ks\<close> after assignments to the keys
  \<open>new\<close>, in that order: a new key goes last.
\<close>

fun insert_keys :: "string list \<Rightarrow> string list \<Rightarrow> string list" where
  "insert_keys ks [] = ks"
| "insert_keys ks (k # new) = insert_keys (if k \<in> set ks then ks else ks @ [k]) new"

text \<open>
  The dictionary \<^verbatim>\<open>data\<close> as lines 129 to 138 and lines 154 to 163 build it, for
  reasoning about both.
\<close>

definition flat_table :: "finance_data \<Rightarrow> py_error + table" where
  "flat_table s =
     (case expenses_data s of
        [] \<Rightarrow> Inl IndexError
      | e0 # _ \<Rightarrow>
     (case add_columns (map fst e0) (expenses_data s)
             [(''Month'', map label_val (months s)), (''Budget'', map PFloat (budgets_data s))] of
        Inl e \<Rightarrow> Inl e
      | Inr data1 \<Rightarrow>
     (case incomes_data s of
        [] \<Rightarrow> Inl IndexError
      | i0 # _ \<Rightarrow> add_columns (map fst i0) (incomes_data s) data1)))"

text \<open>Every dictionary of \<open>ds\<close> has the keys of \<open>d0\<close>.\<close>

definition has_keys_of :: "amounts \<Rightarrow> amounts list \<Rightarrow> bool" where
  "has_keys_of d0 ds \<longleftrightarrow> (\<forall>d \<in> set ds. \<forall>k \<in> fst ` set d0. k \<in> fst ` set d)"

text \<open>Row \<open>i\<close> of a table as \<^verbatim>\<open>csv.writer\<close> writes it.\<close>

definition written_row :: "(real \<Rightarrow> string) \<Rightarrow> table \<Rightarrow> nat \<Rightarrow> string list" where
  "written_row float_str data i = map (\<lambda>(name, c). csv_field float_str (c ! i)) data"

text \<open>\<^verbatim>\<open>float\<close> reads back every number of the store from what \<^verbatim>\<open>str\<close> writes for it.\<close>

definition reads_back :: "(string \<Rightarrow> real option) \<Rightarrow> (real \<Rightarrow> string) \<Rightarrow> finance_data \<Rightarrow> bool" where
  "reads_back pyfloat float_str s \<longleftrightarrow>
     (\<forall>x \<in> set (budgets_data s) \<union>
             (\<Union>d \<in> set (expenses_data s) \<union> set (incomes_data s). snd ` set d).
        pyfloat (float_str x) = Some x)"

text \<open>No expense or income is filed under the column names \<open>Month\<close> and \<open>Budget\<close>.\<close>

definition reserved_free :: "finance_data \<Rightarrow> bool" where
  "reserved_free s \<longleftrightarrow>
     (\<forall>d \<in> set (expenses_data s) \<union> set (incomes_data s).
        ''Month'' \<notin> fst ` set d \<and> ''Budget'' \<notin> fst ` set d)"

text \<open>The rows of a data frame, by position.\<close>

definition frame_rows :: "table \<Rightarrow> pyval list list" where
  "frame_rows df = map (\<lambda>i. map (\<lambda>(name, c). c ! i) df) [0..<length (snd (hd df))]"

section \<open>Statistical analysis\<close>

text \<open>
  \<^verbatim>\<open>Series.mean\<close>, \<^verbatim>\<open>Series.median\<close> and \<^verbatim>\<open>Series.mode\<close> of the pandas library, as
  its documentation defines them on a column of numbers: the mode is the series of the
  values that occur most often, in ascending order, and it is empty only for a column
  without values.
\<close>

definition series_mean :: "real list \<Rightarrow> real option" where
  "series_mean xs = (if xs = [] then None else Some (sum_list xs / real (length xs)))"

definition series_median :: "real list \<Rightarrow> real option" where
  "series_median xs =
     (if xs = [] then None
      else (let ys = sort xs; n = length xs
            in Some (if even n then (ys ! (n div 2 - 1) + ys ! (n div 2)) / 2
                     else ys ! (n div 2))))"

definition series_mode :: "real list \<Rightarrow> real list" where
  "series_mode xs =
     sort (remdups (filter (\<lambda>x. \<forall>y \<in> set xs. count_list xs y \<le> count_list xs x) xs))"

datatype mode_report = No_mode | Mode real

text \<open>Line 178: \<^verbatim>\<open>mode[0] if not mode.empty else 'No mode'\<close>.\<close>

definition report_mode :: "real list \<Rightarrow> mode_report" where
  "report_mode xs = (case series_mode xs of [] \<Rightarrow> No_mode | m # _ \<Rightarrow> Mode m)"

record column_stats =
  column :: string
  mean :: "real option"
  median :: "real option"
  mode :: mode_report

fun floats_of :: "pyval list \<Rightarrow> real list option" where
  "floats_of [] = Some []"
| "floats_of (PFloat x # vs) = map_option ((#) x) (floats_of vs)"
| "floats_of (_ # vs) = None"

text \<open>
  The loop of \<^verbatim>\<open>analysis\<close>, lines 172 to 178, with the three printed figures of each
  column as a record. A column other than \<^verbatim>\<open>Month\<close> that held a label would be a
  \<^verbatim>\<open>TypeError\<close> in the library.
\<close>

fun analysis_columns :: "table \<Rightarrow> py_error + column_stats list" where
  "analysis_columns [] = Inr []"
| "analysis_columns ((name, vs) # cols) =
     (if name \<noteq> ''Month'' then
        (case floats_of vs of
           None \<Rightarrow> Inl TypeError
         | Some xs \<Rightarrow>
             (case analysis_columns cols of
                Inl e \<Rightarrow> Inl e
              | Inr r \<Rightarrow>
                  Inr (\<lparr>column = name, mean = series_mean xs, median = series_median xs,
                        mode = report_mode xs\<rparr> # r)))
      else analysis_columns cols)"

definition analysis :: "finance_data \<Rightarrow> py_error + column_stats list" where
  "analysis s = (case to_dataframe s of Inl e \<Rightarrow> Inl e | Inr df \<Rightarrow> analysis_columns df)"

section \<open>Invariant and examples\<close>

text \<open>The four collections hold one entry per month.\<close>

definition aligned :: "finance_data \<Rightarrow> bool" where
  "aligned s \<longleftrightarrow>
     length (budgets_data s) = length (months s) \<and>
     length (expenses_data s) = length (months s) \<and>
     length (incomes_data s) = length (months s)"

text \<open>
  A line of input is valid when it is a number that is not negative; the accepted values
  of an input are the numbers of its valid lines, in order.
\<close>

definition valid_line :: "(string \<Rightarrow> real option) \<Rightarrow> string \<Rightarrow> bool" where
  "valid_line pyfloat l = (case pyfloat l of None \<Rightarrow> False | Some v \<Rightarrow> v \<ge> 0)"

definition accepted :: "(string \<Rightarrow> real option) \<Rightarrow> string list \<Rightarrow> real list" where
  "accepted pyfloat inp = map (\<lambda>l. the (pyfloat l)) (filter (valid_line pyfloat) inp)"

text \<open>Every income of a month is an expense of that month, with the same amount.\<close>

definition incomes_within :: "finance_data \<Rightarrow> bool" where
  "incomes_within s \<longleftrightarrow>
     list_all2 (\<lambda>i e. \<forall>c x. map_of i c = Some x \<longrightarrow> map_of e c = Some x)
       (incomes_data s) (expenses_data s)"

text \<open>
  For the examples, \<open>pyfloat\<close> and \<open>float_str\<close> are instantiated by fragments of
  Python's \<^verbatim>\<open>float\<close> and \<^verbatim>\<open>str\<close> on the numerals that occur in them.
\<close>

definition demo_float :: "string \<Rightarrow> real option" where
  "demo_float t =
     map_of [(''1000'', 1000), (''200'', 200), (''50'', 50), (''5000'', 5000), (''100'', 100),
             (''-5'', - 5), (''1000.0'', 1000), (''200.0'', 200), (''50.0'', 50),
             (''5000.0'', 5000), (''100.0'', 100)] t"

definition demo_str :: "real \<Rightarrow> string" where
  "demo_str x =
     (if x = 1000 then ''1000.0'' else if x = 200 then ''200.0'' else if x = 50 then ''50.0''
      else if x = 5000 then ''5000.0'' else if x = 100 then ''100.0'' else ''0.0'')"

text \<open>
  The line ends of text mode: a carriage return, alone or before a line feed, is read as
  one line feed.
\<close>

fun universal_newlines :: "string \<Rightarrow> string" where
  "universal_newlines [] = []"
| "universal_newlines [c] = (if c = CHR 0x0D then [CHR 0x0A] else [c])"
| "universal_newlines (c # d # cs) =
     (if c = CHR 0x0D \<and> d = CHR 0x0A then CHR 0x0A # universal_newlines cs
      else if c = CHR 0x0D then CHR 0x0A # universal_newlines (d # cs)
      else c # universal_newlines (d # cs))"

text \<open>
  The file system of the examples: \<^verbatim>\<open>open\<close> fails for the empty path and for
  \<open>/\<close>, a directory, and then the path holds what it held; any other path is written,
  and then reads back cell by cell with the line ends of text mode.
\<close>

definition demo_write :: writer where
  "demo_write path before rows =
     (if path = [] then (Raised FileNotFoundError, before)
      else if path = ''/'' then (Raised IsADirectoryError, before)
      else (Returned, Some (map (\<lambda>r. Row (map universal_newlines r)) rows)))"

text \<open>The file of \<^verbatim>\<open>test_csv_input\<close> in \<^verbatim>\<open>test.py\<close>, and the record it is imported as.\<close>

definition test_data :: files where
  "test_data = Map.empty(''test_data.csv'' \<mapsto>
     [Row [''Month'', ''Budget'', ''Extras'', ''Utilities'', ''Salary'', ''Investments''],
      Row [''1/2023'', ''1000'', ''200'', ''50'', ''5000'', ''100'']])"

definition test_record :: finance_data where
  "test_record =
     \<lparr>months = [Some ''1/2023''], budgets_data = [1000],
      expenses_data =
        [[(''Extras'', 200), (''Utilities'', 50), (''Salary'', 5000), (''Investments'', 100)]],
      incomes_data = [[]]\<rparr>"

text \<open>A file with an income column, and the record it is imported as.\<close>

definition income_data :: files where
  "income_data = Map.empty(''income.csv'' \<mapsto>
     [Row [''Month'', ''Budget'', ''Extras'', ''Side Income''],
      Row [''1/2023'', ''1000'', ''200'', ''50'']])"

definition income_record :: finance_data where
  "income_record =
     \<lparr>months = [Some ''1/2023''], budgets_data = [1000],
      expenses_data = [[(''Extras'', 200), (''Side Income'', 50)]],
      incomes_data = [[(''Side Income'', 50)]]\<rparr>"

text \<open>
  Two files with different headers, and the stores that importing one after the other
  into the same tracker gives, in either order.
\<close>

definition two_files :: files where
  "two_files = Map.empty
     (''a.csv'' \<mapsto> [Row [''Month'', ''Budget'', ''Extras'', ''Utilities''],
                      Row [''1/2023'', ''1000'', ''200'', ''50'']],
      ''b.csv'' \<mapsto> [Row [''Month'', ''Budget'', ''Extras''],
                      Row [''2/2023'', ''1000'', ''200'']])"

definition first_record :: finance_data where
  "first_record =
     \<lparr>months = [Some ''1/2023''], budgets_data = [1000],
      expenses_data = [[(''Extras'', 200), (''Utilities'', 50)]], incomes_data = [[]]\<rparr>"

definition second_record :: finance_data where
  "second_record =
     \<lparr>months = [Some ''2/2023''], budgets_data = [1000],
      expenses_data = [[(''Extras'', 200)]], incomes_data = [[]]\<rparr>"

definition missing_key_record :: finance_data where
  "missing_key_record =
     \<lparr>months = [Some ''1/2023'', Some ''2/2023''], budgets_data = [1000, 1000],
      expenses_data = [[(''Extras'', 200), (''Utilities'', 50)], [(''Extras'', 200)]],
      incomes_data = [[], []]\<rparr>"

definition extra_key_record :: finance_data where
  "extra_key_record =
     \<lparr>months = [Some ''2/2023'', Some ''1/2023''], budgets_data = [1000, 1000],
      expenses_data = [[(''Extras'', 200)], [(''Extras'', 200), (''Utilities'', 50)]],
      incomes_data = [[], []]\<rparr>"

text \<open>
  A file whose only data row lacks the cell of its last column, \<open>Month\<close>; the record
  it is imported as; and the record that the export of that record is imported as.
\<close>

definition short_row_data :: files where
  "short_row_data = Map.empty(''in.csv'' \<mapsto> [Row [''Budget'', ''Month''], Row [''1000'']])"

definition unlabelled_record :: finance_data where
  "unlabelled_record =
     \<lparr>months = [None], budgets_data = [1000], expenses_data = [[]], incomes_data = [[]]\<rparr>"

definition empty_label_record :: finance_data where
  "empty_label_record =
     \<lparr>months = [Some []], budgets_data = [1000], expenses_data = [[]], incomes_data = [[]]\<rparr>"

text \<open>
  A file whose second data row has a budget that is no number, and the store that the
  import leaves when \<^verbatim>\<open>float\<close> raises on it.
\<close>

definition bad_budget_data :: files where
  "bad_budget_data = Map.empty(''bad.csv'' \<mapsto>
     [Row [''Month'', ''Budget''], Row [''1/2023'', ''1000''], Row [''2/2023'', ''abc'']])"

definition ragged_record :: finance_data where
  "ragged_record =
     \<lparr>months = [Some ''1/2023'', Some ''2/2023''], budgets_data = [1000],
      expenses_data = [[]], incomes_data = [[]]\<rparr>"

text \<open>A record whose label holds a carriage return, and the record its export reads as.\<close>

definition cr_record :: finance_data where
  "cr_record =
     \<lparr>months = [Some [CHR ''a'', CHR 0x0D, CHR ''b'']], budgets_data = [1000],
      expenses_data = [[]], incomes_data = [[]]\<rparr>"

definition lf_record :: finance_data where
  "lf_record =
     \<lparr>months = [Some [CHR ''a'', CHR 0x0A, CHR ''b'']], budgets_data = [1000],
      expenses_data = [[]], incomes_data = [[]]\<rparr>"

text \<open>A file whose second data row the reader rejects.\<close>

definition truncated_data :: files where
  "truncated_data = Map.empty(''data.csv'' \<mapsto>
     [Row [''Month'', ''Budget''], Row [''1/2023'', ''1000''], CsvError])"

definition truncated_record :: finance_data where
  "truncated_record =
     \<lparr>months = [Some ''1/2023''], budgets_data = [1000],
      expenses_data = [[]], incomes_data = [[]]\<rparr>"

text \<open>Two months whose budgets differ, with no categories and no sources.\<close>

definition two_months :: finance_data where
  "two_months =
     \<lparr>months = [Some ''1/2023'', Some ''2/2023''], budgets_data = [1000, 2000],
      expenses_data = [[], []], incomes_data = [[], []]\<rparr>"

text \<open>The standard input of \<^verbatim>\<open>test_manual_input\<close> in \<^verbatim>\<open>test.py\<close>.\<close>

definition test_stdin :: "string list" where
  "test_stdin = ''n'' # concat (replicate 12 [''1000'', ''200'', ''50'', ''5000'', ''100''])"

section \<open>Equal lengths\<close>

lemma import_row_aligned:
  "aligned s \<Longrightarrow> import_row pyfloat row s = (Returned, s') \<Longrightarrow> aligned s'"
  by (auto simp: import_row_def aligned_def Let_def split: option.splits sum.splits)

lemma import_rows_aligned:
  "aligned s \<Longrightarrow> import_rows pyfloat fieldnames evs s = (Returned, s', out) \<Longrightarrow> aligned s'"
proof (induction pyfloat fieldnames evs s rule: import_rows.induct)
  case (3 pyfloat fieldnames r evs s)
  then show ?case
    by (auto split: if_splits prod.splits outcome.splits dest: import_row_aligned)
qed auto

lemma collect_csv_aligned:
  "aligned s \<Longrightarrow> collect_csv pyfloat fs p s = (Returned, s', out) \<Longrightarrow> aligned s'"
  by (auto simp: collect_csv_def split: option.splits list.splits reader_event.splits
      dest: import_rows_aligned)

lemma collect_month_aligned:
  "aligned s \<Longrightarrow> collect_month pyfloat m s inp = (Returned, s', inp', out) \<Longrightarrow> aligned s'"
  by (auto simp: collect_month_def aligned_def Let_def split: prod.splits sum.splits)

lemma collect_months_aligned:
  "aligned s \<Longrightarrow> collect_months pyfloat ms s inp = (Returned, s', inp', out) \<Longrightarrow> aligned s'"
proof (induction ms arbitrary: s inp s' inp' out)
  case (Cons m ms)
  then show ?case
    by (auto split: prod.splits outcome.splits dest: collect_month_aligned)
qed auto

lemma collect_monthly_data_aligned:
  "aligned s \<Longrightarrow> collect_monthly_data pyfloat fs input_csv s inp = (Returned, s', inp', out)
    \<Longrightarrow> aligned s'"
  unfolding collect_monthly_data_def
  by (auto split: if_splits prod.splits dest: collect_csv_aligned collect_months_aligned)

lemma aligned_init: "aligned init"
  by (simp add: aligned_def init_def)

lemma test_data_import:
  "collect_monthly_data demo_float test_data (Some ''test_data.csv'') init [] =
     (Returned, test_record, [], [])"
  by (simp add: collect_monthly_data_def collect_csv_def test_data_def import_row_def
      dict_row_def row_expenses_def row_incomes_def float_cell_def demo_float_def init_def
      test_record_def)

lemma truncated_data_import:
  "collect_monthly_data demo_float truncated_data (Some ''data.csv'') init [] =
     (Returned, truncated_record, [], [csv_error_msg])"
  by (simp add: collect_monthly_data_def collect_csv_def truncated_data_def import_row_def
      dict_row_def row_expenses_def row_incomes_def float_cell_def demo_float_def init_def
      truncated_record_def)

text \<open>
  C2. When \<^verbatim>\<open>collect_monthly_data\<close> returns normally from the empty store, on the
  interactive path or the CSV path, the four collections \<open>months\<close>, \<open>budgets_data\<close>,
  \<open>expenses_data\<close> and \<open>incomes_data\<close> have the same length.
\<close>

theorem collect_monthly_data_equal_lengths:
  assumes "collect_monthly_data pyfloat fs input_csv init inp = (Returned, s, inp', out)"
  shows "length (months s) = length (budgets_data s) \<and>
         length (budgets_data s) = length (expenses_data s) \<and>
         length (expenses_data s) = length (incomes_data s)"
  using collect_monthly_data_aligned [OF aligned_init assms] by (simp add: aligned_def)

theorem collect_monthly_data_equal_lengths_witness:
  "collect_monthly_data demo_float test_data (Some ''test_data.csv'') init [] =
     (Returned, test_record, [], []) \<and>
   length (months test_record) = length (budgets_data test_record) \<and>
   length (budgets_data test_record) = length (expenses_data test_record) \<and>
   length (expenses_data test_record) = length (incomes_data test_record)"
  using collect_monthly_data_equal_lengths [OF test_data_import] test_data_import by simp

text \<open>
  C8. With zero months collected, the store being empty, \<^verbatim>\<open>save_data\<close> raises
  \<^verbatim>\<open>IndexError\<close> at the access to record 0; the exception leaves the call, no file is
  written and nothing is printed.
\<close>

theorem save_data_empty_store:
  "save_data write_csv float_str init filename fs = (Raised IndexError, fs, [])"
  by (simp add: save_data_def init_def)

section \<open>Classification of the columns of a row\<close>


lemma dict_set_keys: "fst ` set (dict_set d k v) = insert k (fst ` set d)"
proof (induction d)
  case Nil
  show ?case by simp
next
  case (Cons a d)
  obtain k' v' where a: "a = (k', v')" by (cases a)
  show ?case
  proof (cases "k' = k")
    case True
    with a show ?thesis by simp
  next
    case False
    with a Cons show ?thesis by (simp add: insert_commute)
  qed
qed

lemma dict_set_distinct: "distinct (map fst d) \<Longrightarrow> distinct (map fst (dict_set d k v))"
proof (induction d)
  case Nil
  then show ?case by simp
next
  case (Cons a d)
  obtain k' v' where a: "a = (k', v')" by (cases a)
  from Cons a show ?case
    using dict_set_keys [of d k v] by auto
qed


lemma dict_zip_distinct: "distinct (map fst d) \<Longrightarrow> distinct (map fst (dict_zip d ks vs))"
  by (induction d ks vs rule: dict_zip.induct) (simp_all add: dict_set_distinct)


lemma fill_restval_distinct: "distinct (map fst d) \<Longrightarrow> distinct (map fst (fill_restval d ks))"
  by (induction d ks rule: fill_restval.induct) (simp_all add: dict_set_distinct)

lemma dict_row_distinct: "distinct (map fst (named (dict_row fieldnames r)))"
  by (simp add: dict_row_def Let_def dict_zip_distinct fill_restval_distinct)


lemma float_items_keys:
  "float_items pyfloat keep d ks = Inr r \<Longrightarrow> map fst r = filter keep ks"
  by (induction ks arbitrary: r) (auto split: if_splits option.splits sum.splits)

lemma float_items_value:
  "float_items pyfloat keep d ks = Inr r \<Longrightarrow> distinct ks \<Longrightarrow> map_of r k = Some x
    \<Longrightarrow> \<exists>t. map_of d k = Some (Some t) \<and> pyfloat t = Some x"
proof (induction ks arbitrary: r)
  case Nil
  then show ?case by simp
next
  case (Cons a ks)
  show ?case
  proof (cases "keep a")
    case False
    with Cons show ?thesis by simp
  next
    case True
    with Cons.prems(1) obtain c y r' where c: "map_of d a = Some c"
      and y: "float_cell pyfloat c = Inr y" and r': "float_items pyfloat keep d ks = Inr r'"
      and r: "r = (a, y) # r'"
      by (auto split: option.splits sum.splits)
    show ?thesis
    proof (cases "k = a")
      case True
      with r Cons.prems(3) have "x = y" by simp
      with c y True show ?thesis
        by (auto simp: float_cell_def split: option.splits)
    next
      case False
      with r Cons.prems(3) have "map_of r' k = Some x" by simp
      with Cons.IH [OF r'] Cons.prems(2) show ?thesis by simp
    qed
  qed
qed


lemma row_expenses_result:
  assumes "row_expenses pyfloat row = Inr e"
  shows "surplus row = None"
    and "map fst e = filter (\<lambda>c. c \<noteq> ''Month'' \<and> c \<noteq> ''Budget'') (map fst (named row))"
    and "float_items pyfloat (\<lambda>c. c \<noteq> ''Month'' \<and> c \<noteq> ''Budget'') (named row)
           (map fst (named row)) = Inr e"
  using assms
  by (auto simp: row_expenses_def split: sum.splits option.splits dest: float_items_keys)

lemma row_incomes_result:
  assumes "row_incomes pyfloat row = Inr e"
  shows "map fst e = filter (str_contains ''Income'') (map fst (named row))"
    and "float_items pyfloat (str_contains ''Income'') (named row) (map fst (named row)) = Inr e"
  using assms
  by (auto simp: row_incomes_def split: sum.splits option.splits dest: float_items_keys)


lemma map_of_dict_set: "map_of (dict_set d k v) = (map_of d)(k \<mapsto> v)"
  by (induction d) (auto simp: fun_eq_iff)

lemma dict_set_fresh: "k \<notin> fst ` set d \<Longrightarrow> dict_set d k v = d @ [(k, v)]"
  by (induction d) auto

lemma dict_zip_fresh:
  "distinct ks \<Longrightarrow> set ks \<inter> fst ` set d = {} \<Longrightarrow>
     dict_zip d ks vs = d @ zip ks (map Some vs)"
proof (induction d ks vs rule: dict_zip.induct)
  case (1 d k ks v vs)
  from "1.prems" have k: "k \<notin> fst ` set d" by auto
  from "1.prems" have "distinct ks" and "set ks \<inter> fst ` set (dict_set d k (Some v)) = {}"
    by (auto simp: dict_set_keys)
  from "1.IH" [OF this] k show ?case
    by (simp add: dict_set_fresh)
qed simp_all

lemma dict_row_distinct_header:
  assumes "distinct h" and "length r = length h"
  shows "dict_row h r = \<lparr>named = zip h (map Some r), surplus = None\<rparr>"
  using assms dict_zip_fresh [of h "[]" r] by (simp add: dict_row_def)





section \<open>The records of the rows of a file\<close>







lemma income_data_import:
  "collect_monthly_data demo_float income_data (Some ''income.csv'') init [] =
     (Returned, income_record, [], [])"
  by (simp add: collect_monthly_data_def collect_csv_def income_data_def import_row_def
      dict_row_def row_expenses_def row_incomes_def float_cell_def demo_float_def init_def
      income_record_def)


section \<open>Failures of the import\<close>

lemma store_extended:
  "s\<lparr>months := months s @ [], budgets_data := budgets_data s @ [],
      expenses_data := expenses_data s @ [], incomes_data := incomes_data s @ []\<rparr> = s"
  by simp






section \<open>Incomes of an imported row are among its expenses\<close>

lemma float_items_has:
  assumes "float_items pyfloat keep d ks = Inr r" and "k \<in> set ks" and "keep k"
  shows "\<exists>x. map_of r k = Some x"
proof -
  from assms have "k \<in> set (map fst r)"
    by (simp add: float_items_keys)
  then have "map_of r k \<noteq> None"
    by (simp add: map_of_eq_None_iff)
  then show ?thesis by auto
qed

lemma income_name_not_reserved:
  "str_contains ''Income'' c \<Longrightarrow> c \<noteq> ''Month'' \<and> c \<noteq> ''Budget''"
  by auto

lemma row_incomes_within:
  assumes e: "row_expenses pyfloat (dict_row fieldnames r) = Inr e"
    and i: "row_incomes pyfloat (dict_row fieldnames r) = Inr i"
    and c: "map_of i c = Some x"
  shows "map_of e c = Some x"
proof -
  let ?d = "named (dict_row fieldnames r)"
  from c have "c \<in> set (map fst i)"
    by (metis map_of_eq_None_iff option.distinct(1) set_map)
  then have k: "c \<in> set (map fst ?d)" and inc: "str_contains ''Income'' c"
    unfolding row_incomes_result(1) [OF i] by simp_all
  from inc have keep: "c \<noteq> ''Month'' \<and> c \<noteq> ''Budget''"
    by (rule income_name_not_reserved)
  from float_items_has [OF row_expenses_result(3) [OF e] k keep]
  obtain y where y: "map_of e c = Some y" by (elim exE)
  from float_items_value [OF row_incomes_result(2) [OF i] dict_row_distinct c]
  obtain t where t: "map_of ?d c = Some (Some t)" "pyfloat t = Some x" by auto
  from float_items_value [OF row_expenses_result(3) [OF e] dict_row_distinct y]
  obtain t' where t': "map_of ?d c = Some (Some t')" "pyfloat t' = Some y" by auto
  from t t' have "x = y" by simp
  with y show ?thesis by simp
qed

lemma import_row_lists:
  assumes "import_row pyfloat row s = (r, s')"
  shows "(expenses_data s' = expenses_data s \<and> incomes_data s' = incomes_data s) \<or>
         (\<exists>e i. row_expenses pyfloat row = Inr e \<and> row_incomes pyfloat row = Inr i \<and>
            expenses_data s' = expenses_data s @ [e] \<and> incomes_data s' = incomes_data s @ [i])"
  using assms
  by (auto simp: import_row_def Let_def split: option.splits sum.splits)

lemma import_row_within:
  assumes "incomes_within s" and "import_row pyfloat (dict_row fieldnames r) s = (res, s')"
  shows "incomes_within s'"
  using import_row_lists [OF assms(2)]
proof
  assume "expenses_data s' = expenses_data s \<and> incomes_data s' = incomes_data s"
  with assms(1) show ?thesis by (simp add: incomes_within_def)
next
  assume "\<exists>e i. row_expenses pyfloat (dict_row fieldnames r) = Inr e \<and>
            row_incomes pyfloat (dict_row fieldnames r) = Inr i \<and>
            expenses_data s' = expenses_data s @ [e] \<and> incomes_data s' = incomes_data s @ [i]"
  then obtain e i where e: "row_expenses pyfloat (dict_row fieldnames r) = Inr e"
    and i: "row_incomes pyfloat (dict_row fieldnames r) = Inr i"
    and s': "expenses_data s' = expenses_data s @ [e]" "incomes_data s' = incomes_data s @ [i]"
    by auto
  have "\<forall>c x. map_of i c = Some x \<longrightarrow> map_of e c = Some x"
    using row_incomes_within [OF e i] by simp
  with assms(1) s' show ?thesis
    by (simp add: incomes_within_def list_all2_appendI)
qed

lemma import_rows_within:
  "incomes_within s \<Longrightarrow> import_rows pyfloat fieldnames evs s = (res, s', out)
    \<Longrightarrow> incomes_within s'"
proof (induction pyfloat fieldnames evs s rule: import_rows.induct)
  case (3 pyfloat fieldnames r evs s)
  show ?case
  proof (cases "r = []")
    case True
    with 3 show ?thesis by simp
  next
    case False
    obtain o1 s1 where s1: "import_row pyfloat (dict_row fieldnames r) s = (o1, s1)"
      by (cases "import_row pyfloat (dict_row fieldnames r) s")
    from import_row_within [OF "3.prems"(1) s1] have w: "incomes_within s1" .
    show ?thesis
    proof (cases o1)
      case Returned
      with False s1 "3.prems"(2) have "import_rows pyfloat fieldnames evs s1 = (res, s', out)"
        by simp
      from "3.IH"(2) [OF False s1 [symmetric] Returned w this] show ?thesis .
    next
      case (Raised e)
      with False s1 "3.prems"(2) have "s' = s1" by simp
      with w show ?thesis by simp
    qed
  qed
qed auto

lemma collect_csv_within:
  "incomes_within s \<Longrightarrow> collect_csv pyfloat fs p s = (res, s', out) \<Longrightarrow> incomes_within s'"
  by (auto simp: collect_csv_def split: option.splits list.splits reader_event.splits
      dest: import_rows_within)

lemma incomes_within_init: "incomes_within init"
  by (simp add: incomes_within_def init_def)

text \<open>
  C9. After \<^verbatim>\<open>collect_monthly_data\<close> has read a CSV file into the empty store,
  however the call ends, the incomes and the expenses have one entry per imported row,
  and every key of a row's incomes is a key of that row's expenses with the same number.
\<close>

theorem csv_incomes_within_expenses:
  assumes "p \<noteq> []"
    and "collect_monthly_data pyfloat fs (Some p) init inp = (res, s, inp', out)"
  shows "length (incomes_data s) = length (expenses_data s) \<and>
         (\<forall>n c x. n < length (incomes_data s) \<and> map_of (incomes_data s ! n) c = Some x
            \<longrightarrow> map_of (expenses_data s ! n) c = Some x)"
proof -
  from assms have "collect_csv pyfloat fs p init = (res, s, out)"
    by (auto simp: collect_monthly_data_def split: prod.splits)
  from collect_csv_within [OF incomes_within_init this]
  have "list_all2 (\<lambda>i e. \<forall>c x. map_of i c = Some x \<longrightarrow> map_of e c = Some x)
       (incomes_data s) (expenses_data s)"
    by (simp add: incomes_within_def)
  then show ?thesis
    by (simp add: list_all2_conv_all_nth)
qed

theorem csv_incomes_within_expenses_witness:
  "''income.csv'' \<noteq> [] \<and>
   collect_monthly_data demo_float income_data (Some ''income.csv'') init [] =
     (Returned, income_record, [], []) \<and>
   map_of (incomes_data income_record ! 0) ''Side Income'' = Some 50 \<and>
   map_of (expenses_data income_record ! 0) ''Side Income'' = Some 50"
proof -
  have p: "''income.csv'' \<noteq> []" by simp
  have m: "0 < length (incomes_data income_record) \<and>
      map_of (incomes_data income_record ! 0) ''Side Income'' = Some 50"
    by (simp add: income_record_def)
  from csv_incomes_within_expenses [OF p income_data_import, THEN conjunct2, rule_format,
      of 0 "''Side Income''" 50, OF m]
  have "map_of (expenses_data income_record ! 0) ''Side Income'' = Some 50" .
  with p m income_data_import show ?thesis by (intro conjI) simp_all
qed

section \<open>The mode that the analysis reports\<close>

lemma most_frequent_exists:
  assumes "xs \<noteq> []"
  shows "\<exists>x \<in> set xs. \<forall>y \<in> set xs. count_list xs y \<le> count_list xs x"
proof -
  let ?C = "count_list xs ` set xs"
  from assms have ne: "?C \<noteq> {}" by simp
  have fin: "finite ?C" by simp
  from Max_in [OF fin ne] obtain x where x: "x \<in> set xs" "count_list xs x = Max ?C"
    by auto
  have "count_list xs y \<le> count_list xs x" if "y \<in> set xs" for y
    using that x(2) Max_ge [OF fin, of "count_list xs y"] by simp
  with x(1) show ?thesis by blast
qed

lemma series_mode_empty: "series_mode xs = [] \<longleftrightarrow> xs = []"
proof
  assume e: "series_mode xs = []"
  show "xs = []"
  proof (rule ccontr)
    assume "xs \<noteq> []"
    from most_frequent_exists [OF this] obtain x where
      "x \<in> set xs" "\<forall>y \<in> set xs. count_list xs y \<le> count_list xs x" by blast
    then have "x \<in> set (series_mode xs)"
      by (simp add: series_mode_def)
    with e show False by simp
  qed
next
  assume "xs = []"
  then show "series_mode xs = []" by (simp add: series_mode_def)
qed

lemma report_mode_No_mode: "report_mode xs = No_mode \<longleftrightarrow> xs = []"
  using series_mode_empty [of xs]
  by (auto simp: report_mode_def split: list.splits)

lemma count_list_distinct: "distinct xs \<Longrightarrow> y \<in> set xs \<Longrightarrow> count_list xs y = 1"
  by (induction xs) auto

lemma report_mode_distinct:
  assumes "distinct xs" and "xs \<noteq> []"
  shows "report_mode xs = Mode (Min (set xs))"
proof -
  from assms(1) have c: "count_list xs y = 1" if "y \<in> set xs" for y
    using that by (simp add: count_list_distinct)
  then have "filter (\<lambda>x. \<forall>y \<in> set xs. count_list xs y \<le> count_list xs x) xs = xs"
    by (simp add: filter_id_conv)
  with assms(1) have m: "series_mode xs = sort xs"
    by (simp add: series_mode_def distinct_remdups_id)
  from assms(2) obtain a as where s: "sort xs = a # as"
    by (cases "sort xs") (auto dest: arg_cong [where f = length])
  have "sorted (sort xs)" by simp
  with s have "\<forall>y \<in> set (a # as). a \<le> y" by auto
  moreover have "set (a # as) = set xs" using s by (metis set_sort)
  ultimately have "\<forall>y \<in> set xs. a \<le> y" and "a \<in> set xs" by auto
  then have "Min (set xs) = a"
    by (intro Min_eqI) auto
  with m s show ?thesis by (simp add: report_mode_def)
qed

text \<open>
  C7. The claim asks for \<open>No mode\<close> on a column without a repeated value. For the two
  months of \<open>two_months\<close> the \<open>Budget\<close> column is 1000, 2000, all distinct, and
  \<^verbatim>\<open>analysis\<close> reports the mode 1000, the smallest value.
\<close>

theorem analysis_distinct_column_mode:
  "analysis two_months =
     Inr [\<lparr>column = ''Budget'', mean = Some 1500, median = Some 1500, mode = Mode 1000\<rparr>]"
  by (simp add: analysis_def to_dataframe_def two_months_def report_mode_def series_mode_def
      series_mean_def series_median_def label_val_def)

section \<open>Interactive ingestion\<close>

lemma get_input_prompts: "\<exists>out. snd (snd (get_input pyfloat prompt inp)) = prompt # out"
  by (cases inp) (auto split: option.splits prod.splits)

lemma get_input_rejects:
  assumes "\<not> valid_line pyfloat l"
  shows "\<exists>r rest out. get_input pyfloat prompt ls = (r, rest, prompt # out) \<and>
           get_input pyfloat prompt (l # ls) =
             (r, rest, prompt # (if pyfloat l = None then invalid_msg else negative_msg)
                       # prompt # out)"
proof -
  obtain r rest out' where g: "get_input pyfloat prompt ls = (r, rest, out')"
    by (cases "get_input pyfloat prompt ls")
  with get_input_prompts [of pyfloat prompt ls] obtain out where o: "out' = prompt # out"
    by auto
  from assms g o show ?thesis
    by (auto simp: valid_line_def split: option.splits)
qed

lemma get_input_accepted:
  "accepted pyfloat inp = a # as \<Longrightarrow>
     \<exists>rest out. get_input pyfloat prompt inp = (Inr a, rest, out) \<and> accepted pyfloat rest = as"
proof (induction inp)
  case Nil
  then show ?case by (simp add: accepted_def)
next
  case (Cons l ls)
  show ?case
  proof (cases "valid_line pyfloat l")
    case True
    with Cons.prems show ?thesis
      by (auto simp: accepted_def valid_line_def split: option.splits)
  next
    case False
    with Cons.prems have "accepted pyfloat ls = a # as"
      by (simp add: accepted_def)
    from Cons.IH [OF this] obtain rest out where
      "get_input pyfloat prompt ls = (Inr a, rest, out)" "accepted pyfloat rest = as"
      by auto
    with False show ?thesis
      by (auto simp: valid_line_def split: option.splits)
  qed
qed

lemma accepted_nonneg: "v \<in> set (accepted pyfloat inp) \<Longrightarrow> 0 \<le> v"
  by (auto simp: accepted_def valid_line_def split: option.splits)

lemma collect_month_accepted:
  assumes "accepted pyfloat inp = b # e # u # sa # iv # as"
  shows "\<exists>rest out. collect_month pyfloat month s inp =
           (Returned,
            s\<lparr>months := months s @ [Some (str_nat month @ ''/2023'')],
              budgets_data := budgets_data s @ [b],
              expenses_data := expenses_data s @ [[(''Extras'', e), (''Utilities'', u)]],
              incomes_data := incomes_data s @ [[(''Salary'', sa), (''Investments'', iv)]]\<rparr>,
            rest, out) \<and> accepted pyfloat rest = as"
proof -
  from get_input_accepted [OF assms] obtain i1 o1 where
    1: "get_input pyfloat (''Enter budget for month '' @ str_nat month @ '': '') inp = (Inr b, i1, o1)"
    and a1: "accepted pyfloat i1 = e # u # sa # iv # as" by blast
  from get_input_accepted [OF a1] obtain i2 o2 where
    2: "get_input pyfloat (''Enter expenses for extras in month '' @ str_nat month @ '': '') i1 = (Inr e, i2, o2)"
    and a2: "accepted pyfloat i2 = u # sa # iv # as" by blast
  from get_input_accepted [OF a2] obtain i3 o3 where
    3: "get_input pyfloat (''Enter expenses for Utilities in month '' @ str_nat month @ '': '') i2 = (Inr u, i3, o3)"
    and a3: "accepted pyfloat i3 = sa # iv # as" by blast
  from get_input_accepted [OF a3] obtain i4 o4 where
    4: "get_input pyfloat (''Enter income from Salary in month '' @ str_nat month @ '': '') i3 = (Inr sa, i4, o4)"
    and a4: "accepted pyfloat i4 = iv # as" by blast
  from get_input_accepted [OF a4] obtain i5 o5 where
    5: "get_input pyfloat (''Enter income from Investments in month '' @ str_nat month @ '': '') i4 = (Inr iv, i5, o5)"
    and a5: "accepted pyfloat i5 = as" by blast
  from 1 2 3 4 5 a5 show ?thesis
    by (simp add: collect_month_def)
qed

lemma map_upt_Suc_shift: "map f [0..<Suc n] = f 0 # map (\<lambda>k. f (Suc k)) [0..<n]"
proof -
  have "[0..<Suc n] = 0 # map Suc [0..<n]"
    by (simp add: upt_conv_Cons map_Suc_upt del: upt_Suc)
  then show ?thesis by (simp add: comp_def del: upt_Suc)
qed

lemma five_values:
  assumes "5 \<le> length (a :: 'a list)"
  shows "\<exists>b e u sa iv as. a = b # e # u # sa # iv # as"
proof -
  from assms have "Suc (Suc (Suc (Suc (Suc 0)))) \<le> length a" by simp
  then show ?thesis
    by (auto simp: Suc_le_length_iff)
qed

lemma collect_months_accepted:
  assumes "5 * length ms \<le> length (accepted pyfloat inp)"
  shows "\<exists>s' rest out. collect_months pyfloat ms s inp = (Returned, s', rest, out) \<and>
     months s' = months s @ map (\<lambda>m. Some (str_nat m @ ''/2023'')) ms \<and>
     budgets_data s' =
       budgets_data s @ map (\<lambda>k. accepted pyfloat inp ! (5 * k)) [0..<length ms] \<and>
     expenses_data s' =
       expenses_data s @
       map (\<lambda>k. [(''Extras'', accepted pyfloat inp ! (5 * k + 1)),
                  (''Utilities'', accepted pyfloat inp ! (5 * k + 2))]) [0..<length ms] \<and>
     incomes_data s' =
       incomes_data s @
       map (\<lambda>k. [(''Salary'', accepted pyfloat inp ! (5 * k + 3)),
                  (''Investments'', accepted pyfloat inp ! (5 * k + 4))]) [0..<length ms]"
  using assms
proof (induction ms arbitrary: s inp)
  case Nil
  then show ?case by simp
next
  case (Cons m ms)
  from Cons.prems have "5 \<le> length (accepted pyfloat inp)" by simp
  from five_values [OF this] obtain b e u sa iv as where
    a: "accepted pyfloat inp = b # e # u # sa # iv # as" by blast
  let ?s1 = "s\<lparr>months := months s @ [Some (str_nat m @ ''/2023'')],
              budgets_data := budgets_data s @ [b],
              expenses_data := expenses_data s @ [[(''Extras'', e), (''Utilities'', u)]],
              incomes_data := incomes_data s @ [[(''Salary'', sa), (''Investments'', iv)]]\<rparr>"
  from collect_month_accepted [OF a, of m s] obtain rest1 out1 where
    c1: "collect_month pyfloat m s inp = (Returned, ?s1, rest1, out1)"
    and a1: "accepted pyfloat rest1 = as" by blast
  from Cons.prems a a1 have "5 * length ms \<le> length (accepted pyfloat rest1)" by simp
  from Cons.IH [OF this, of ?s1] obtain s' rest out where
    c2: "collect_months pyfloat ms ?s1 rest1 = (Returned, s', rest, out)" and
    m: "months s' = months ?s1 @ map (\<lambda>m. Some (str_nat m @ ''/2023'')) ms" and
    b: "budgets_data s' =
       budgets_data ?s1 @ map (\<lambda>k. accepted pyfloat rest1 ! (5 * k)) [0..<length ms]" and
    x: "expenses_data s' =
       expenses_data ?s1 @
       map (\<lambda>k. [(''Extras'', accepted pyfloat rest1 ! (5 * k + 1)),
                  (''Utilities'', accepted pyfloat rest1 ! (5 * k + 2))]) [0..<length ms]" and
    i: "incomes_data s' =
       incomes_data ?s1 @
       map (\<lambda>k. [(''Salary'', accepted pyfloat rest1 ! (5 * k + 3)),
                  (''Investments'', accepted pyfloat rest1 ! (5 * k + 4))]) [0..<length ms]"
    by blast
  have r: "collect_months pyfloat (m # ms) s inp = (Returned, s', rest, out1 @ out)"
    using c1 c2 by simp
  let ?a = "b # e # u # sa # iv # as"
  have idx: "?a ! (5 * Suc k + j) = as ! (5 * k + j)" for k j
  proof -
    have "5 * Suc k + j = Suc (Suc (Suc (Suc (Suc (5 * k + j)))))" by simp
    then show ?thesis by (simp only: nth_Cons_Suc)
  qed
  have idx0: "?a ! (5 * Suc k) = as ! (5 * k)" for k
    using idx [of k 0] by simp
  have fb: "map (\<lambda>k. ?a ! (5 * k)) [0..<Suc (length ms)] =
      b # map (\<lambda>k. as ! (5 * k)) [0..<length ms]"
    unfolding map_upt_Suc_shift idx0 by simp
  have fx: "map (\<lambda>k. [(''Extras'', ?a ! (5 * k + 1)), (''Utilities'', ?a ! (5 * k + 2))])
        [0..<Suc (length ms)] =
      [(''Extras'', e), (''Utilities'', u)] #
      map (\<lambda>k. [(''Extras'', as ! (5 * k + 1)), (''Utilities'', as ! (5 * k + 2))])
        [0..<length ms]"
    unfolding map_upt_Suc_shift idx by simp
  have fi: "map (\<lambda>k. [(''Salary'', ?a ! (5 * k + 3)), (''Investments'', ?a ! (5 * k + 4))])
        [0..<Suc (length ms)] =
      [(''Salary'', sa), (''Investments'', iv)] #
      map (\<lambda>k. [(''Salary'', as ! (5 * k + 3)), (''Investments'', as ! (5 * k + 4))])
        [0..<length ms]"
    unfolding map_upt_Suc_shift idx by (simp add: numeral_3_eq_3 numeral_Bit0)
  from m have m': "months s' = months s @ map (\<lambda>m. Some (str_nat m @ ''/2023'')) (m # ms)"
    by simp
  from b have b': "budgets_data s' =
       budgets_data s @ map (\<lambda>k. accepted pyfloat inp ! (5 * k)) [0..<length (m # ms)]"
    unfolding a a1 length_Cons fb by simp
  from x have x': "expenses_data s' =
       expenses_data s @
       map (\<lambda>k. [(''Extras'', accepted pyfloat inp ! (5 * k + 1)),
                  (''Utilities'', accepted pyfloat inp ! (5 * k + 2))]) [0..<length (m # ms)]"
    unfolding a a1 length_Cons fx by simp
  from i have i': "incomes_data s' =
       incomes_data s @
       map (\<lambda>k. [(''Salary'', accepted pyfloat inp ! (5 * k + 3)),
                  (''Investments'', accepted pyfloat inp ! (5 * k + 4))]) [0..<length (m # ms)]"
    unfolding a a1 length_Cons fi by simp
  from r m' b' x' i' show ?case by blast
qed

lemma month_labels:
  "map (\<lambda>m. Some (str_nat m @ ''/2023'')) [1..<13] =
     map Some [''1/2023'', ''2/2023'', ''3/2023'', ''4/2023'', ''5/2023'', ''6/2023'',
       ''7/2023'', ''8/2023'', ''9/2023'', ''10/2023'', ''11/2023'', ''12/2023'']"
  by code_simp

text \<open>
  C6. When the input holds a valid value for each of the sixty prompts, interactive
  ingestion into the empty store returns with exactly twelve records, labelled
  \<open>1/2023\<close> to \<open>12/2023\<close>; record \<open>k\<close> has as budget, as expenses under exactly
  \<open>Extras\<close> and \<open>Utilities\<close>, and as incomes under exactly \<open>Salary\<close> and
  \<open>Investments\<close>, the five accepted values of its month, in the order of the prompts;
  no stored value is negative; and a line that is not a number, or is negative, is
  rejected: its message is printed and the same prompt is printed again.
\<close>

theorem interactive_twelve_records:
  assumes "60 \<le> length (accepted pyfloat inp)"
  shows "\<exists>s rest out.
     collect_monthly_data pyfloat fs None init inp = (Returned, s, rest, out) \<and>
     months s =
       map Some [''1/2023'', ''2/2023'', ''3/2023'', ''4/2023'', ''5/2023'', ''6/2023'',
         ''7/2023'', ''8/2023'', ''9/2023'', ''10/2023'', ''11/2023'', ''12/2023''] \<and>
     length (budgets_data s) = 12 \<and> length (expenses_data s) = 12 \<and>
     length (incomes_data s) = 12 \<and>
     (\<forall>k < 12.
        budgets_data s ! k = accepted pyfloat inp ! (5 * k) \<and>
        expenses_data s ! k =
          [(''Extras'', accepted pyfloat inp ! (5 * k + 1)),
           (''Utilities'', accepted pyfloat inp ! (5 * k + 2))] \<and>
        incomes_data s ! k =
          [(''Salary'', accepted pyfloat inp ! (5 * k + 3)),
           (''Investments'', accepted pyfloat inp ! (5 * k + 4))] \<and>
        0 \<le> budgets_data s ! k \<and>
        (\<forall>v \<in> snd ` set (expenses_data s ! k @ incomes_data s ! k). 0 \<le> v)) \<and>
     (\<forall>prompt l ls. \<not> valid_line pyfloat l \<longrightarrow>
        (\<exists>r rest' out'.
           get_input pyfloat prompt ls = (r, rest', prompt # out') \<and>
           get_input pyfloat prompt (l # ls) =
             (r, rest', prompt # (if pyfloat l = None then invalid_msg else negative_msg)
                        # prompt # out')))"
proof -
  let ?a = "accepted pyfloat inp"
  have len: "length [1..<13::nat] = 12" by simp
  from assms have "5 * length [1..<13::nat] \<le> length ?a" by simp
  from collect_months_accepted [OF this, of init] obtain s rest out where
    c: "collect_months pyfloat [1..<13] init inp = (Returned, s, rest, out)" and
    m: "months s = months init @ map (\<lambda>m. Some (str_nat m @ ''/2023'')) [1..<13]" and
    b: "budgets_data s = budgets_data init @ map (\<lambda>k. ?a ! (5 * k)) [0..<length [1..<13::nat]]" and
    x: "expenses_data s = expenses_data init @
       map (\<lambda>k. [(''Extras'', ?a ! (5 * k + 1)), (''Utilities'', ?a ! (5 * k + 2))])
         [0..<length [1..<13::nat]]" and
    i: "incomes_data s = incomes_data init @
       map (\<lambda>k. [(''Salary'', ?a ! (5 * k + 3)), (''Investments'', ?a ! (5 * k + 4))])
         [0..<length [1..<13::nat]]"
    by blast
  have r: "collect_monthly_data pyfloat fs None init inp = (Returned, s, rest, out)"
    using c by (simp add: collect_monthly_data_def)
  have m': "months s =
       map Some [''1/2023'', ''2/2023'', ''3/2023'', ''4/2023'', ''5/2023'', ''6/2023'',
         ''7/2023'', ''8/2023'', ''9/2023'', ''10/2023'', ''11/2023'', ''12/2023'']"
    unfolding m month_labels by (simp add: init_def)
  have b': "budgets_data s = map (\<lambda>k. ?a ! (5 * k)) [0..<12]"
    unfolding b len by (simp add: init_def)
  have x': "expenses_data s =
       map (\<lambda>k. [(''Extras'', ?a ! (5 * k + 1)), (''Utilities'', ?a ! (5 * k + 2))]) [0..<12]"
    unfolding x len by (simp add: init_def)
  have i': "incomes_data s =
       map (\<lambda>k. [(''Salary'', ?a ! (5 * k + 3)), (''Investments'', ?a ! (5 * k + 4))]) [0..<12]"
    unfolding i len by (simp add: init_def)
  have nn: "0 \<le> ?a ! j" if "j < 60" for j
    using that assms by (intro accepted_nonneg [of _ pyfloat inp] nth_mem) simp
  have rec: "budgets_data s ! k = ?a ! (5 * k) \<and>
        expenses_data s ! k =
          [(''Extras'', ?a ! (5 * k + 1)), (''Utilities'', ?a ! (5 * k + 2))] \<and>
        incomes_data s ! k =
          [(''Salary'', ?a ! (5 * k + 3)), (''Investments'', ?a ! (5 * k + 4))] \<and>
        0 \<le> budgets_data s ! k \<and>
        (\<forall>v \<in> snd ` set (expenses_data s ! k @ incomes_data s ! k). 0 \<le> v)"
    if "k < 12" for k
  proof -
    from that have j: "5 * k < 60" "5 * k + 1 < 60" "5 * k + 2 < 60" "5 * k + 3 < 60"
      "5 * k + 4 < 60" by simp_all
    from that show ?thesis
      unfolding b' x' i' using nn [OF j(1)] nn [OF j(2)] nn [OF j(3)] nn [OF j(4)] nn [OF j(5)]
      by simp
  qed
  have rej: "\<forall>prompt l ls. \<not> valid_line pyfloat l \<longrightarrow>
        (\<exists>r rest' out'.
           get_input pyfloat prompt ls = (r, rest', prompt # out') \<and>
           get_input pyfloat prompt (l # ls) =
             (r, rest', prompt # (if pyfloat l = None then invalid_msg else negative_msg)
                        # prompt # out'))"
    using get_input_rejects by blast
  have l: "length (budgets_data s) = 12" "length (expenses_data s) = 12"
    "length (incomes_data s) = 12"
    unfolding b' x' i' by simp_all
  from r m' l rec rej show ?thesis by blast
qed

lemma test_stdin_accepted:
  "accepted demo_float test_stdin =
     concat (replicate 12 [1000, 200, 50, 5000, 100])"
  by (simp add: accepted_def test_stdin_def valid_line_def demo_float_def numeral_eq_Suc)

theorem interactive_twelve_records_witness:
  "60 \<le> length (accepted demo_float test_stdin) \<and>
   (\<exists>s rest out.
      collect_monthly_data demo_float Map.empty None init test_stdin = (Returned, s, rest, out) \<and>
      budgets_data s ! 0 = 1000 \<and>
      expenses_data s ! 0 = [(''Extras'', 200), (''Utilities'', 50)] \<and>
      incomes_data s ! 0 = [(''Salary'', 5000), (''Investments'', 100)])"
proof -
  have h: "60 \<le> length (accepted demo_float test_stdin)"
    unfolding test_stdin_accepted by (simp add: numeral_eq_Suc)
  have v: "accepted demo_float test_stdin ! (5 * 0) = 1000"
    "accepted demo_float test_stdin ! (5 * 0 + 1) = 200"
    "accepted demo_float test_stdin ! (5 * 0 + 2) = 50"
    "accepted demo_float test_stdin ! (5 * 0 + 3) = 5000"
    "accepted demo_float test_stdin ! (5 * 0 + 4) = 100"
    unfolding test_stdin_accepted by (simp_all add: numeral_eq_Suc)
  from interactive_twelve_records [OF h, of Map.empty] obtain s rest out where
    r: "collect_monthly_data demo_float Map.empty None init test_stdin = (Returned, s, rest, out)"
    and rec: "\<forall>k < 12.
        budgets_data s ! k = accepted demo_float test_stdin ! (5 * k) \<and>
        expenses_data s ! k =
          [(''Extras'', accepted demo_float test_stdin ! (5 * k + 1)),
           (''Utilities'', accepted demo_float test_stdin ! (5 * k + 2))] \<and>
        incomes_data s ! k =
          [(''Salary'', accepted demo_float test_stdin ! (5 * k + 3)),
           (''Investments'', accepted demo_float test_stdin ! (5 * k + 4))] \<and>
        0 \<le> budgets_data s ! k \<and>
        (\<forall>v \<in> snd ` set (expenses_data s ! k @ incomes_data s ! k). 0 \<le> v)"
    by (elim exE conjE)
  have "(0::nat) < 12" by simp
  with rec have "budgets_data s ! 0 = accepted demo_float test_stdin ! (5 * 0) \<and>
        expenses_data s ! 0 =
          [(''Extras'', accepted demo_float test_stdin ! (5 * 0 + 1)),
           (''Utilities'', accepted demo_float test_stdin ! (5 * 0 + 2))] \<and>
        incomes_data s ! 0 =
          [(''Salary'', accepted demo_float test_stdin ! (5 * 0 + 3)),
           (''Investments'', accepted demo_float test_stdin ! (5 * 0 + 4))] \<and>
        0 \<le> budgets_data s ! 0 \<and>
        (\<forall>v \<in> snd ` set (expenses_data s ! 0 @ incomes_data s ! 0). 0 \<le> v)"
    by (elim allE [of _ 0] impE)
  then have "budgets_data s ! 0 = 1000 \<and>
      expenses_data s ! 0 = [(''Extras'', 200), (''Utilities'', 50)] \<and>
      incomes_data s ! 0 = [(''Salary'', 5000), (''Investments'', 100)]"
    unfolding v by (elim conjE) (intro conjI)
  with r h show ?thesis by blast
qed

section \<open>The flat table\<close>

lemma keys_dict_set:
  "map fst (dict_set d k v) = (if k \<in> fst ` set d then map fst d else map fst d @ [k])"
proof (induction d)
  case Nil
  show ?case by simp
next
  case (Cons a d)
  obtain k' v' where a: "a = (k', v')" by (cases a)
  show ?case
  proof (cases "k' = k")
    case True
    with a show ?thesis by simp
  next
    case False
    with a Cons show ?thesis by simp
  qed
qed

lemma column_of_eq:
  "column_of key ds =
     (if \<forall>d \<in> set ds. map_of d key \<noteq> None
      then Inr (map (\<lambda>d. PFloat (the (map_of d key))) ds) else Inl KeyError)"
proof (induction ds)
  case Nil
  show ?case by simp
next
  case (Cons d ds)
  show ?case
  proof (cases "map_of d key")
    case None
    then show ?thesis by simp
  next
    case (Some x)
    with Cons show ?thesis by simp
  qed
qed

lemma column_of_Inr:
  "column_of key ds = Inr c \<longleftrightarrow>
     (\<forall>d \<in> set ds. map_of d key \<noteq> None) \<and> c = map (\<lambda>d. PFloat (the (map_of d key))) ds"
  unfolding column_of_eq by auto

lemma column_of_Inl:
  "column_of key ds = Inl e \<longleftrightarrow> (\<exists>d \<in> set ds. map_of d key = None) \<and> e = KeyError"
  unfolding column_of_eq by auto

lemma add_columns_Inr:
  "add_columns keys ds data = Inr data' \<Longrightarrow>
     (\<forall>k \<in> set keys. \<forall>d \<in> set ds. map_of d k \<noteq> None) \<and>
     map fst data' = insert_keys (map fst data) keys \<and>
     (\<forall>k. map_of data' k =
        (if k \<in> set keys then Some (map (\<lambda>d. PFloat (the (map_of d k))) ds)
         else map_of data k))"
proof (induction keys arbitrary: data)
  case Nil
  then show ?case by simp
next
  case (Cons key keys)
  from Cons.prems obtain c where c: "column_of key ds = Inr c"
    and r: "add_columns keys ds (dict_set data key c) = Inr data'"
    by (auto split: sum.splits)
  from c have c': "\<forall>d \<in> set ds. map_of d key \<noteq> None"
    "c = map (\<lambda>d. PFloat (the (map_of d key))) ds"
    by (simp_all add: column_of_Inr)
  from Cons.IH [OF r] c' show ?case
    by (auto simp: keys_dict_set map_of_dict_set)
qed

lemma add_columns_succeeds:
  "\<forall>k \<in> set keys. \<forall>d \<in> set ds. map_of d k \<noteq> None \<Longrightarrow> \<exists>data'. add_columns keys ds data = Inr data'"
proof (induction keys arbitrary: data)
  case Nil
  then show ?case by simp
next
  case (Cons key keys)
  then have "column_of key ds = Inr (map (\<lambda>d. PFloat (the (map_of d key))) ds)"
    by (simp add: column_of_Inr)
  with Cons show ?case by simp
qed

lemma add_columns_Inl:
  "add_columns keys ds data = Inl e \<Longrightarrow>
     e = KeyError \<and> (\<exists>k \<in> set keys. \<exists>d \<in> set ds. map_of d k = None)"
proof (induction keys arbitrary: data)
  case Nil
  then show ?case by simp
next
  case (Cons key keys)
  show ?case
  proof (cases "column_of key ds")
    case (Inl e')
    with Cons.prems have "e' = e" by simp
    with Inl show ?thesis by (auto simp: column_of_Inl)
  next
    case (Inr c)
    with Cons.prems have "add_columns keys ds (dict_set data key c) = Inl e" by simp
    from Cons.IH [OF this] show ?thesis by auto
  qed
qed

lemma insert_keys_set: "set (insert_keys ks new) = set ks \<union> set new"
  by (induction ks new rule: insert_keys.induct) auto

lemma insert_keys_distinct: "distinct ks \<Longrightarrow> distinct (insert_keys ks new)"
  by (induction ks new rule: insert_keys.induct) auto

lemma insert_keys_fresh: "distinct (ks @ new) \<Longrightarrow> insert_keys ks new = ks @ new"
  by (induction ks new rule: insert_keys.induct) auto

lemma insert_keys_prefix: "\<exists>added. insert_keys ks new = ks @ added"
  by (induction ks new rule: insert_keys.induct) auto

lemma zip_star_rows:
  assumes "cols \<noteq> []" and "\<forall>c \<in> set cols. length c = n"
  shows "zip_star cols = map (\<lambda>i. map (\<lambda>c. c ! i) cols) [0..<n]"
  using assms
proof (induction cols rule: zip_star.induct)
  case 1
  then show ?case by simp
next
  case (2 c)
  then have "length c = n" by simp
  then show ?case
    by (intro nth_equalityI) simp_all
next
  case (3 c v va)
  then have ih: "zip_star (v # va) = map (\<lambda>i. map (\<lambda>c. c ! i) (v # va)) [0..<n]"
    and l: "length c = n" by simp_all
  show ?case
    unfolding zip_star.simps ih using l
    by (intro nth_equalityI) simp_all
qed

lemma save_data_flat_table:
  "save_data write_csv float_str s filename fs =
     (case flat_table s of
        Inl e \<Rightarrow> (Raised e, fs, [])
      | Inr data \<Rightarrow> write_file write_csv filename (table_rows float_str data) fs)"
  by (simp add: save_data_def flat_table_def split: list.splits sum.splits)

lemma to_dataframe_flat_table:
  "to_dataframe s =
     (case flat_table s of
        Inl e \<Rightarrow> Inl e
      | Inr data \<Rightarrow>
          if \<forall>c \<in> set (map snd data). length c = length (snd (hd data))
          then Inr data else Inl ValueError)"
  by (simp add: to_dataframe_def flat_table_def split: list.splits sum.splits)

lemma flat_table_Inr:
  assumes "flat_table s = Inr data"
  shows "expenses_data s \<noteq> []" and "incomes_data s \<noteq> []"
    and "\<forall>k \<in> set (map fst (hd (expenses_data s))).
           \<forall>d \<in> set (expenses_data s). map_of d k \<noteq> None"
    and "\<forall>k \<in> set (map fst (hd (incomes_data s))).
           \<forall>d \<in> set (incomes_data s). map_of d k \<noteq> None"
    and "map fst data =
           insert_keys (insert_keys [''Month'', ''Budget''] (map fst (hd (expenses_data s))))
             (map fst (hd (incomes_data s)))"
    and "map_of data k =
        (if k \<in> set (map fst (hd (incomes_data s)))
         then Some (map (\<lambda>d. PFloat (the (map_of d k))) (incomes_data s))
         else if k \<in> set (map fst (hd (expenses_data s)))
         then Some (map (\<lambda>d. PFloat (the (map_of d k))) (expenses_data s))
         else if k = ''Month'' then Some (map label_val (months s))
         else if k = ''Budget'' then Some (map PFloat (budgets_data s))
         else None)"
proof -
  from assms obtain e0 es where e: "expenses_data s = e0 # es"
    by (cases "expenses_data s") (simp_all add: flat_table_def)
  let ?d0 = "[(''Month'', map label_val (months s)), (''Budget'', map PFloat (budgets_data s))]"
  from assms e obtain data1 where
    d1: "add_columns (map fst e0) (expenses_data s) ?d0 = Inr data1"
    by (cases "add_columns (map fst e0) (expenses_data s) ?d0") (simp_all add: flat_table_def)
  from assms e d1 obtain i0 "is" where i: "incomes_data s = i0 # is"
    by (cases "incomes_data s") (simp_all add: flat_table_def)
  from assms e d1 i have d2: "add_columns (map fst i0) (incomes_data s) data1 = Inr data"
    by (simp add: flat_table_def)
  have he: "hd (expenses_data s) = e0" and hi: "hd (incomes_data s) = i0"
    using e i by simp_all
  note a1 = add_columns_Inr [OF d1] and a2 = add_columns_Inr [OF d2]
  from e show "expenses_data s \<noteq> []" by simp
  from i show "incomes_data s \<noteq> []" by simp
  from a1 show "\<forall>k \<in> set (map fst (hd (expenses_data s))).
           \<forall>d \<in> set (expenses_data s). map_of d k \<noteq> None"
    unfolding he by (elim conjE)
  from a2 show "\<forall>k \<in> set (map fst (hd (incomes_data s))).
           \<forall>d \<in> set (incomes_data s). map_of d k \<noteq> None"
    unfolding hi by (elim conjE)
  from a1 a2 show "map fst data =
           insert_keys (insert_keys [''Month'', ''Budget''] (map fst (hd (expenses_data s))))
             (map fst (hd (incomes_data s)))"
    unfolding he hi by simp
  from a1 have m1: "map_of data1 k =
        (if k \<in> set (map fst e0) then Some (map (\<lambda>d. PFloat (the (map_of d k))) (expenses_data s))
         else map_of ?d0 k)"
    by (elim conjE allE [of _ k])
  from a2 have m2: "map_of data k =
        (if k \<in> set (map fst i0) then Some (map (\<lambda>d. PFloat (the (map_of d k))) (incomes_data s))
         else map_of data1 k)"
    by (elim conjE allE [of _ k])
  show "map_of data k =
        (if k \<in> set (map fst (hd (incomes_data s)))
         then Some (map (\<lambda>d. PFloat (the (map_of d k))) (incomes_data s))
         else if k \<in> set (map fst (hd (expenses_data s)))
         then Some (map (\<lambda>d. PFloat (the (map_of d k))) (expenses_data s))
         else if k = ''Month'' then Some (map label_val (months s))
         else if k = ''Budget'' then Some (map PFloat (budgets_data s))
         else None)"
    unfolding he hi m2 m1 by simp
qed

lemma flat_table_Inl:
  assumes "flat_table s = Inl e"
  shows "(e = IndexError \<and> (expenses_data s = [] \<or> incomes_data s = [])) \<or>
         (e = KeyError \<and>
          ((\<exists>k \<in> set (map fst (hd (expenses_data s))).
              \<exists>d \<in> set (expenses_data s). map_of d k = None) \<or>
           (\<exists>k \<in> set (map fst (hd (incomes_data s))).
              \<exists>d \<in> set (incomes_data s). map_of d k = None)))"
proof (cases "expenses_data s")
  case Nil
  with assms show ?thesis by (simp add: flat_table_def)
next
  case e: (Cons e0 es)
  let ?d0 = "[(''Month'', map label_val (months s)), (''Budget'', map PFloat (budgets_data s))]"
  show ?thesis
  proof (cases "add_columns (map fst e0) (expenses_data s) ?d0")
    case (Inl e')
    with assms e have "e' = e" by (simp add: flat_table_def)
    with add_columns_Inl [OF Inl] e show ?thesis by simp
  next
    case d1: (Inr data1)
    show ?thesis
    proof (cases "incomes_data s")
      case Nil
      with assms e d1 show ?thesis by (simp add: flat_table_def)
    next
      case i: (Cons i0 "is")
      with assms e d1 have "add_columns (map fst i0) (incomes_data s) data1 = Inl e"
        by (simp add: flat_table_def)
      from add_columns_Inl [OF this] i show ?thesis by simp
    qed
  qed
qed

lemma flat_table_succeeds:
  assumes "expenses_data s \<noteq> []" and "incomes_data s \<noteq> []"
    and "\<forall>k \<in> set (map fst (hd (expenses_data s))).
           \<forall>d \<in> set (expenses_data s). map_of d k \<noteq> None"
    and "\<forall>k \<in> set (map fst (hd (incomes_data s))).
           \<forall>d \<in> set (incomes_data s). map_of d k \<noteq> None"
  shows "\<exists>data. flat_table s = Inr data"
proof -
  let ?d0 = "[(''Month'', map label_val (months s)), (''Budget'', map PFloat (budgets_data s))]"
  from assms(1) obtain e0 es where e: "expenses_data s = e0 # es"
    by (cases "expenses_data s") simp_all
  from assms(2) obtain i0 "is" where i: "incomes_data s = i0 # is"
    by (cases "incomes_data s") simp_all
  have he: "hd (expenses_data s) = e0" and hi: "hd (incomes_data s) = i0"
    using e i by simp_all
  from add_columns_succeeds [OF assms(3), of ?d0] obtain data1 where
    d1: "add_columns (map fst e0) (expenses_data s) ?d0 = Inr data1"
    unfolding he by (elim exE)
  from add_columns_succeeds [OF assms(4), of data1] obtain data where
    d2: "add_columns (map fst i0) (incomes_data s) data1 = Inr data"
    unfolding hi by (elim exE)
  from e i d1 d2 have "flat_table s = Inr data" by (simp add: flat_table_def)
  then show ?thesis ..
qed

lemma flat_table_distinct:
  assumes "flat_table s = Inr data"
  shows "distinct (map fst data)" and "data \<noteq> []"
proof -
  note k = flat_table_Inr(5) [OF assms]
  show "distinct (map fst data)"
    unfolding k by (intro insert_keys_distinct) simp
  have "''Month'' \<in> set (map fst data)"
    unfolding k insert_keys_set by simp
  then show "data \<noteq> []" by auto
qed

lemma flat_table_lengths:
  assumes "flat_table s = Inr data" and "aligned s" and "(k, c) \<in> set data"
  shows "length c = length (months s)"
proof -
  from flat_table_distinct(1) [OF assms(1)] assms(3) have "map_of data k = Some c"
    by simp
  then have "Some c =
        (if k \<in> set (map fst (hd (incomes_data s)))
         then Some (map (\<lambda>d. PFloat (the (map_of d k))) (incomes_data s))
         else if k \<in> set (map fst (hd (expenses_data s)))
         then Some (map (\<lambda>d. PFloat (the (map_of d k))) (expenses_data s))
         else if k = ''Month'' then Some (map label_val (months s))
         else if k = ''Budget'' then Some (map PFloat (budgets_data s))
         else None)"
    unfolding flat_table_Inr(6) [OF assms(1), of k] by (rule sym)
  with assms(2) show ?thesis
    by (auto simp: aligned_def split: if_splits)
qed

section \<open>Export and data frame hold the same table\<close>

lemma to_dataframe_Inr:
  assumes "to_dataframe s = Inr df"
  shows "flat_table s = Inr df" and "\<forall>c \<in> set (map snd df). length c = length (snd (hd df))"
proof -
  from assms obtain data where d: "flat_table s = Inr data"
    by (cases "flat_table s") (simp_all add: to_dataframe_flat_table)
  with assms have e: "\<forall>c \<in> set (map snd data). length c = length (snd (hd data))"
    by (simp add: to_dataframe_flat_table split: if_splits)
  with assms d have "data = df"
    by (simp add: to_dataframe_flat_table)
  with d e show "flat_table s = Inr df"
    and "\<forall>c \<in> set (map snd df). length c = length (snd (hd df))" by simp_all
qed

lemma frame_rows_zip_star:
  assumes "df \<noteq> []" and "\<forall>c \<in> set (map snd df). length c = length (snd (hd df))"
  shows "zip_star (map snd df) = frame_rows df"
proof -
  from assms(1) have "map snd df \<noteq> []" by simp
  from zip_star_rows [OF this assms(2)]
  have "zip_star (map snd df) =
      map (\<lambda>i. map (\<lambda>c. c ! i) (map snd df)) [0..<length (snd (hd df))]" .
  also have "\<dots> = frame_rows df"
    by (simp add: frame_rows_def case_prod_unfold comp_def)
  finally show ?thesis .
qed

lemma to_dataframe_aligned:
  assumes "aligned s"
  shows "to_dataframe s \<noteq> Inl ValueError"
proof (cases "flat_table s")
  case (Inl e)
  from flat_table_Inl [OF Inl] have "e \<noteq> ValueError" by auto
  with Inl show ?thesis by (simp add: to_dataframe_flat_table)
next
  case (Inr data)
  have "length c = length (months s)" if "c \<in> set (map snd data)" for c
  proof -
    from that obtain k where "(k, c) \<in> set data" by auto
    from flat_table_lengths [OF Inr assms this] show ?thesis .
  qed
  moreover have "snd (hd data) \<in> set (map snd data)"
    using flat_table_distinct(2) [OF Inr] by simp
  ultimately have "\<forall>c \<in> set (map snd data). length c = length (snd (hd data))"
    by simp
  with Inr show ?thesis by (simp add: to_dataframe_flat_table)
qed

lemma bad_budget_import:
  "collect_monthly_data demo_float bad_budget_data (Some ''bad.csv'') init [] =
     (Raised ValueError, ragged_record, [], [])"
  by (simp add: collect_monthly_data_def collect_csv_def bad_budget_data_def import_row_def
      dict_row_def row_expenses_def row_incomes_def float_cell_def demo_float_def init_def
      ragged_record_def)

text \<open>
  C10, as the claim states it, fails: the import of \<open>bad.csv\<close> raises at the budget of
  its second data row and leaves two labels and one budget in the store. On that store
  \<^verbatim>\<open>to_dataframe\<close> raises \<^verbatim>\<open>ValueError\<close> and gives no table, while \<^verbatim>\<open>save_data\<close>
  returns and writes a file of one data row.
\<close>

theorem ragged_store_disagree_counterexample:
  "collect_monthly_data demo_float bad_budget_data (Some ''bad.csv'') init [] =
     (Raised ValueError, ragged_record, [], []) \<and>
   to_dataframe ragged_record = Inl ValueError \<and>
   save_data demo_write demo_str ragged_record ''out.csv'' bad_budget_data =
     (Returned,
      bad_budget_data(''out.csv'' \<mapsto> [Row [''Month'', ''Budget''], Row [''1/2023'', ''1000.0'']]),
      [''Data saved to out.csv''])"
  by (simp add: collect_monthly_data_def collect_csv_def bad_budget_data_def import_row_def
      dict_row_def row_expenses_def row_incomes_def float_cell_def demo_float_def init_def
      ragged_record_def to_dataframe_def save_data_def write_file_def table_rows_def
      demo_write_def csv_field_def demo_str_def label_val_def)

text \<open>
  C10, amended. \<^verbatim>\<open>save_data\<close> and \<^verbatim>\<open>to_dataframe\<close> build the same dictionary of
  columns from the same store. Whenever \<^verbatim>\<open>to_dataframe\<close> gives a data frame,
  \<^verbatim>\<open>save_data\<close> hands to the CSV writer exactly that table: the frame's column names
  in the frame's order, which is \<open>Month\<close>, \<open>Budget\<close>, then the expense keys of record 0
  and the income keys of record 0 in insertion order (a key met again keeps its first
  place), and then the frame's rows, cell for cell. When \<^verbatim>\<open>to_dataframe\<close> raises
  \<^verbatim>\<open>IndexError\<close> or \<^verbatim>\<open>KeyError\<close>, \<^verbatim>\<open>save_data\<close> raises the same error and writes
  nothing. The two differ only when columns of the dictionary differ in length, which
  needs a store whose four collections differ in length: there \<^verbatim>\<open>to_dataframe\<close>
  raises \<^verbatim>\<open>ValueError\<close>, and \<^verbatim>\<open>save_data\<close> hands to the writer the rows up to the
  shortest column.
\<close>

theorem save_data_to_dataframe_agree:
  "(\<forall>df. to_dataframe s = Inr df \<longrightarrow>
      save_data write_csv float_str s filename fs =
        write_file write_csv filename
          (map fst df # map (map (csv_field float_str)) (frame_rows df)) fs \<and>
      map fst df =
        insert_keys (insert_keys [''Month'', ''Budget''] (map fst (hd (expenses_data s))))
          (map fst (hd (incomes_data s)))) \<and>
   (\<forall>e. to_dataframe s = Inl e \<and> e \<noteq> ValueError \<longrightarrow>
      save_data write_csv float_str s filename fs = (Raised e, fs, [])) \<and>
   (to_dataframe s = Inl ValueError \<longrightarrow>
      \<not> aligned s \<and>
      (\<exists>data. flat_table s = Inr data \<and>
         \<not> (\<forall>c \<in> set (map snd data). length c = length (snd (hd data))) \<and>
         save_data write_csv float_str s filename fs =
           write_file write_csv filename (table_rows float_str data) fs))"
proof (intro conjI allI impI)
  fix df
  assume df: "to_dataframe s = Inr df"
  note t = to_dataframe_Inr [OF df]
  from frame_rows_zip_star [OF flat_table_distinct(2) [OF t(1)] t(2)]
  have "zip_star (map snd df) = frame_rows df" .
  with t(1) show "save_data write_csv float_str s filename fs =
        write_file write_csv filename
          (map fst df # map (map (csv_field float_str)) (frame_rows df)) fs"
    by (simp add: save_data_flat_table table_rows_def)
  from flat_table_Inr(5) [OF t(1)] show "map fst df =
        insert_keys (insert_keys [''Month'', ''Budget''] (map fst (hd (expenses_data s))))
          (map fst (hd (incomes_data s)))" .
next
  fix e
  assume e: "to_dataframe s = Inl e \<and> e \<noteq> ValueError"
  then have "flat_table s = Inl e"
    by (cases "flat_table s") (auto simp: to_dataframe_flat_table split: if_splits)
  then show "save_data write_csv float_str s filename fs = (Raised e, fs, [])"
    by (simp add: save_data_flat_table)
next
  assume v: "to_dataframe s = Inl ValueError"
  with to_dataframe_aligned [of s] show "\<not> aligned s" by blast
  show "\<exists>data. flat_table s = Inr data \<and>
         \<not> (\<forall>c \<in> set (map snd data). length c = length (snd (hd data))) \<and>
         save_data write_csv float_str s filename fs =
           write_file write_csv filename (table_rows float_str data) fs"
  proof (cases "flat_table s")
    case (Inl e)
    from flat_table_Inl [OF Inl] have "e \<noteq> ValueError" by auto
    with Inl v show ?thesis by (simp add: to_dataframe_flat_table)
  next
    case (Inr data)
    with v have "\<not> (\<forall>c \<in> set (map snd data). length c = length (snd (hd data)))"
      by (simp add: to_dataframe_flat_table split: if_splits)
    moreover from Inr have "save_data write_csv float_str s filename fs =
           write_file write_csv filename (table_rows float_str data) fs"
      by (simp add: save_data_flat_table)
    ultimately show ?thesis using Inr by blast
  qed
qed

lemma income_record_frame:
  "to_dataframe income_record =
     Inr [(''Month'', [PStr ''1/2023'']), (''Budget'', [PFloat 1000]),
          (''Extras'', [PFloat 200]), (''Side Income'', [PFloat 50])]"
  by (simp add: to_dataframe_def income_record_def label_val_def)

theorem save_data_to_dataframe_agree_witness:
  "to_dataframe income_record =
     Inr [(''Month'', [PStr ''1/2023'']), (''Budget'', [PFloat 1000]),
          (''Extras'', [PFloat 200]), (''Side Income'', [PFloat 50])] \<and>
   save_data demo_write demo_str income_record ''out.csv'' Map.empty =
     (Returned,
      Map.empty(''out.csv'' \<mapsto>
        [Row [''Month'', ''Budget'', ''Extras'', ''Side Income''],
         Row [''1/2023'', ''1000.0'', ''200.0'', ''50.0'']]),
      [''Data saved to out.csv''])"
proof -
  from save_data_to_dataframe_agree [of income_record demo_write demo_str "''out.csv''" Map.empty,
      THEN conjunct1, THEN spec, THEN mp, OF income_record_frame, THEN conjunct1]
  have "save_data demo_write demo_str income_record ''out.csv'' Map.empty =
     (Returned,
      Map.empty(''out.csv'' \<mapsto>
        [Row [''Month'', ''Budget'', ''Extras'', ''Side Income''],
         Row [''1/2023'', ''1000.0'', ''200.0'', ''50.0'']]),
      [''Data saved to out.csv''])"
    by (simp add: frame_rows_def csv_field_def demo_str_def write_file_def demo_write_def)
  with income_record_frame show ?thesis by (intro conjI)
qed

section \<open>Keys of record 0\<close>

lemma has_key: "map_of d k \<noteq> None \<longleftrightarrow> k \<in> fst ` set d"
  by (simp add: map_of_eq_None_iff)

lemma flat_table_uniform:
  assumes "expenses_data s \<noteq> []" and "incomes_data s \<noteq> []"
  shows "(\<exists>data. flat_table s = Inr data) \<longleftrightarrow>
         has_keys_of (hd (expenses_data s)) (expenses_data s) \<and>
         has_keys_of (hd (incomes_data s)) (incomes_data s)"
proof
  assume "\<exists>data. flat_table s = Inr data"
  then obtain data where d: "flat_table s = Inr data" ..
  from flat_table_Inr(3) [OF d] flat_table_Inr(4) [OF d]
  show "has_keys_of (hd (expenses_data s)) (expenses_data s) \<and>
         has_keys_of (hd (incomes_data s)) (incomes_data s)"
    unfolding has_key has_keys_of_def set_map by blast
next
  assume u: "has_keys_of (hd (expenses_data s)) (expenses_data s) \<and>
         has_keys_of (hd (incomes_data s)) (incomes_data s)"
  have 1: "\<forall>k \<in> set (map fst (hd (expenses_data s))).
           \<forall>d \<in> set (expenses_data s). map_of d k \<noteq> None"
    using u unfolding has_key has_keys_of_def set_map by blast
  have 2: "\<forall>k \<in> set (map fst (hd (incomes_data s))).
           \<forall>d \<in> set (incomes_data s). map_of d k \<noteq> None"
    using u unfolding has_key has_keys_of_def set_map by blast
  from flat_table_succeeds [OF assms 1 2] show "\<exists>data. flat_table s = Inr data" .
qed

lemma flat_table_KeyError:
  assumes "expenses_data s \<noteq> []" and "incomes_data s \<noteq> []"
    and "\<not> (has_keys_of (hd (expenses_data s)) (expenses_data s) \<and>
         has_keys_of (hd (incomes_data s)) (incomes_data s))"
  shows "flat_table s = Inl KeyError"
proof (cases "flat_table s")
  case (Inl e)
  from flat_table_Inl [OF Inl] assms(1,2) have "e = KeyError" by auto
  with Inl show ?thesis by simp
next
  case (Inr data)
  then have "\<exists>data. flat_table s = Inr data" ..
  with flat_table_uniform [OF assms(1,2)] assms(3) show ?thesis by simp
qed

lemma table_rows_aligned:
  assumes t: "flat_table s = Inr data" and a: "aligned s"
  shows "table_rows float_str data =
         map fst data # map (written_row float_str data) [0..<length (months s)]"
proof -
  from flat_table_distinct(2) [OF t] have ne: "map snd data \<noteq> []" by simp
  have "\<forall>c \<in> set (map snd data). length c = length (months s)"
    using flat_table_lengths [OF t a] by auto
  from zip_star_rows [OF ne this] show ?thesis
    by (simp add: table_rows_def written_row_def comp_def case_prod_unfold)
qed

lemma to_dataframe_aligned_Inr:
  assumes "flat_table s = Inr data" and "aligned s"
  shows "to_dataframe s = Inr data"
  using to_dataframe_aligned [OF assms(2)] assms(1)
  by (simp add: to_dataframe_flat_table split: if_splits)

lemma import_a_then_b:
  "collect_monthly_data demo_float two_files (Some ''a.csv'') init [] =
     (Returned, first_record, [], []) \<and>
   collect_monthly_data demo_float two_files (Some ''b.csv'') first_record [] =
     (Returned, missing_key_record, [], [])"
  by (simp add: collect_monthly_data_def collect_csv_def two_files_def import_row_def
      dict_row_def row_expenses_def row_incomes_def float_cell_def demo_float_def init_def
      first_record_def missing_key_record_def)

text \<open>
  C3, as the claim states it, fails: importing \<open>a.csv\<close> and then \<open>b.csv\<close> into one
  tracker gives two months of which the second lacks the key \<open>Utilities\<close> of record 0,
  and then neither operation succeeds: both raise \<^verbatim>\<open>KeyError\<close>, and no file is
  written.
\<close>

theorem missing_key_raises_counterexample:
  "collect_monthly_data demo_float two_files (Some ''a.csv'') init [] =
     (Returned, first_record, [], []) \<and>
   collect_monthly_data demo_float two_files (Some ''b.csv'') first_record [] =
     (Returned, missing_key_record, [], []) \<and>
   save_data demo_write demo_str missing_key_record ''out.csv'' two_files =
     (Raised KeyError, two_files, []) \<and>
   to_dataframe missing_key_record = Inl KeyError"
  by (simp add: collect_monthly_data_def collect_csv_def two_files_def import_row_def
      dict_row_def row_expenses_def row_incomes_def float_cell_def demo_float_def init_def
      first_record_def missing_key_record_def save_data_def to_dataframe_def)

text \<open>
  C3, amended. On a store with at least one record, \<^verbatim>\<open>save_data\<close> and
  \<^verbatim>\<open>to_dataframe\<close> take the expense and income columns from the keys of record 0
  only. When every month has all the keys of record 0, both build the table whose columns
  are \<open>Month\<close>, \<open>Budget\<close> and the keys of record 0, in insertion order; the column of a
  key of record 0 holds, month by month, the amount under that key (the income, when the
  key is an expense key and an income key); so a key that only a later month has is
  dropped without notice. \<^verbatim>\<open>save_data\<close> hands the header and the rows of that table
  to the CSV writer, and succeeds when the file can be written; when the four collections
  have the same length, \<^verbatim>\<open>to_dataframe\<close> returns the table and the rows written are
  one per month. When some month lacks a key of record 0, both operations raise
  \<^verbatim>\<open>KeyError\<close> and no file is written.
\<close>

theorem record0_keys_decide_columns:
  assumes "expenses_data s \<noteq> []" and "incomes_data s \<noteq> []"
  shows "(has_keys_of (hd (expenses_data s)) (expenses_data s) \<and>
          has_keys_of (hd (incomes_data s)) (incomes_data s) \<longrightarrow>
            (\<exists>data.
               save_data write_csv float_str s filename fs =
                 write_file write_csv filename (table_rows float_str data) fs \<and>
               map fst data =
                 insert_keys (insert_keys [''Month'', ''Budget''] (map fst (hd (expenses_data s))))
                   (map fst (hd (incomes_data s))) \<and>
               set (map fst data) =
                 {''Month'', ''Budget''} \<union> fst ` set (hd (expenses_data s))
                   \<union> fst ` set (hd (incomes_data s)) \<and>
               (\<forall>k. map_of data k =
                  (if k \<in> set (map fst (hd (incomes_data s)))
                   then Some (map (\<lambda>d. PFloat (the (map_of d k))) (incomes_data s))
                   else if k \<in> set (map fst (hd (expenses_data s)))
                   then Some (map (\<lambda>d. PFloat (the (map_of d k))) (expenses_data s))
                   else if k = ''Month'' then Some (map label_val (months s))
                   else if k = ''Budget'' then Some (map PFloat (budgets_data s))
                   else None)) \<and>
               (aligned s \<longrightarrow>
                  to_dataframe s = Inr data \<and>
                  table_rows float_str data =
                    map fst data # map (written_row float_str data) [0..<length (months s)]))) \<and>
         (\<not> (has_keys_of (hd (expenses_data s)) (expenses_data s) \<and>
             has_keys_of (hd (incomes_data s)) (incomes_data s)) \<longrightarrow>
            save_data write_csv float_str s filename fs = (Raised KeyError, fs, []) \<and>
            to_dataframe s = Inl KeyError)"
proof (intro conjI impI)
  assume u: "has_keys_of (hd (expenses_data s)) (expenses_data s) \<and>
          has_keys_of (hd (incomes_data s)) (incomes_data s)"
  with flat_table_uniform [OF assms] have "\<exists>data. flat_table s = Inr data"
    by (rule iffD2)
  then obtain data where d: "flat_table s = Inr data" ..
  note k = flat_table_Inr(5) [OF d]
  have sv: "save_data write_csv float_str s filename fs =
      write_file write_csv filename (table_rows float_str data) fs"
    using d by (simp add: save_data_flat_table)
  have st: "set (map fst data) = {''Month'', ''Budget''} \<union> fst ` set (hd (expenses_data s))
                   \<union> fst ` set (hd (incomes_data s))"
    unfolding k insert_keys_set by auto
  have cols: "\<forall>k. map_of data k =
                  (if k \<in> set (map fst (hd (incomes_data s)))
                   then Some (map (\<lambda>d. PFloat (the (map_of d k))) (incomes_data s))
                   else if k \<in> set (map fst (hd (expenses_data s)))
                   then Some (map (\<lambda>d. PFloat (the (map_of d k))) (expenses_data s))
                   else if k = ''Month'' then Some (map label_val (months s))
                   else if k = ''Budget'' then Some (map PFloat (budgets_data s))
                   else None)"
    by (intro allI) (rule flat_table_Inr(6) [OF d])
  have al: "aligned s \<longrightarrow>
                  to_dataframe s = Inr data \<and>
                  table_rows float_str data =
                    map fst data # map (written_row float_str data) [0..<length (months s)]"
  proof (intro impI conjI)
    assume a: "aligned s"
    from to_dataframe_aligned_Inr [OF d a] show "to_dataframe s = Inr data" .
    from table_rows_aligned [OF d a] show "table_rows float_str data =
                    map fst data # map (written_row float_str data) [0..<length (months s)]" .
  qed
  from sv k st cols al show "\<exists>data.
               save_data write_csv float_str s filename fs =
                 write_file write_csv filename (table_rows float_str data) fs \<and>
               map fst data =
                 insert_keys (insert_keys [''Month'', ''Budget''] (map fst (hd (expenses_data s))))
                   (map fst (hd (incomes_data s))) \<and>
               set (map fst data) =
                 {''Month'', ''Budget''} \<union> fst ` set (hd (expenses_data s))
                   \<union> fst ` set (hd (incomes_data s)) \<and>
               (\<forall>k. map_of data k =
                  (if k \<in> set (map fst (hd (incomes_data s)))
                   then Some (map (\<lambda>d. PFloat (the (map_of d k))) (incomes_data s))
                   else if k \<in> set (map fst (hd (expenses_data s)))
                   then Some (map (\<lambda>d. PFloat (the (map_of d k))) (expenses_data s))
                   else if k = ''Month'' then Some (map label_val (months s))
                   else if k = ''Budget'' then Some (map PFloat (budgets_data s))
                   else None)) \<and>
               (aligned s \<longrightarrow>
                  to_dataframe s = Inr data \<and>
                  table_rows float_str data =
                    map fst data # map (written_row float_str data) [0..<length (months s)])"
    by (intro exI [of _ data] conjI)
next
  assume n: "\<not> (has_keys_of (hd (expenses_data s)) (expenses_data s) \<and>
             has_keys_of (hd (incomes_data s)) (incomes_data s))"
  from flat_table_KeyError [OF assms n]
  show "save_data write_csv float_str s filename fs = (Raised KeyError, fs, [])"
    by (simp add: save_data_flat_table)
next
  assume n: "\<not> (has_keys_of (hd (expenses_data s)) (expenses_data s) \<and>
             has_keys_of (hd (incomes_data s)) (incomes_data s))"
  from flat_table_KeyError [OF assms n]
  show "to_dataframe s = Inl KeyError"
    by (simp add: to_dataframe_flat_table)
qed

lemma extra_key_frame:
  "to_dataframe extra_key_record =
     Inr [(''Month'', [PStr ''2/2023'', PStr ''1/2023'']),
          (''Budget'', [PFloat 1000, PFloat 1000]), (''Extras'', [PFloat 200, PFloat 200])]"
  by (simp add: to_dataframe_def extra_key_record_def label_val_def)

theorem record0_keys_decide_columns_witness:
  "expenses_data extra_key_record \<noteq> [] \<and> incomes_data extra_key_record \<noteq> [] \<and>
   has_keys_of (hd (expenses_data extra_key_record)) (expenses_data extra_key_record) \<and>
   has_keys_of (hd (incomes_data extra_key_record)) (incomes_data extra_key_record) \<and>
   aligned extra_key_record \<and>
   to_dataframe extra_key_record =
     Inr [(''Month'', [PStr ''2/2023'', PStr ''1/2023'']),
          (''Budget'', [PFloat 1000, PFloat 1000]), (''Extras'', [PFloat 200, PFloat 200])] \<and>
   save_data demo_write demo_str extra_key_record ''out.csv'' two_files =
     (Returned,
      two_files(''out.csv'' \<mapsto>
        [Row [''Month'', ''Budget'', ''Extras''], Row [''2/2023'', ''1000.0'', ''200.0''],
         Row [''1/2023'', ''1000.0'', ''200.0'']]),
      [''Data saved to out.csv''])"
proof -
  let ?d = "[(''Month'', [PStr ''2/2023'', PStr ''1/2023'']),
          (''Budget'', [PFloat 1000, PFloat 1000]), (''Extras'', [PFloat 200, PFloat 200])]"
  have e: "expenses_data extra_key_record \<noteq> []" and i: "incomes_data extra_key_record \<noteq> []"
    by (simp_all add: extra_key_record_def)
  have u1: "has_keys_of (hd (expenses_data extra_key_record)) (expenses_data extra_key_record)"
    and u2: "has_keys_of (hd (incomes_data extra_key_record)) (incomes_data extra_key_record)"
    by (simp_all add: has_keys_of_def extra_key_record_def)
  have a: "aligned extra_key_record"
    by (simp add: aligned_def extra_key_record_def)
  from record0_keys_decide_columns [OF e i, of demo_write demo_str "''out.csv''" two_files,
      THEN conjunct1, THEN mp, OF conjI [OF u1 u2]]
  obtain data where
    sv: "save_data demo_write demo_str extra_key_record ''out.csv'' two_files =
      write_file demo_write ''out.csv'' (table_rows demo_str data) two_files"
    and al: "aligned extra_key_record \<longrightarrow>
       to_dataframe extra_key_record = Inr data \<and>
       table_rows demo_str data =
         map fst data # map (written_row demo_str data) [0..<length (months extra_key_record)]"
    by (elim exE conjE)
  from al a have "to_dataframe extra_key_record = Inr data" by (elim impE conjE)
  with extra_key_frame have d: "data = ?d" by simp
  have w: "write_file demo_write ''out.csv'' (table_rows demo_str ?d) two_files =
     (Returned,
      two_files(''out.csv'' \<mapsto>
        [Row [''Month'', ''Budget'', ''Extras''], Row [''2/2023'', ''1000.0'', ''200.0''],
         Row [''1/2023'', ''1000.0'', ''200.0'']]),
      [''Data saved to out.csv''])"
    by (simp add: write_file_def demo_write_def table_rows_def csv_field_def demo_str_def)
  from sv w have s: "save_data demo_write demo_str extra_key_record ''out.csv'' two_files =
     (Returned,
      two_files(''out.csv'' \<mapsto>
        [Row [''Month'', ''Budget'', ''Extras''], Row [''2/2023'', ''1000.0'', ''200.0''],
         Row [''1/2023'', ''1000.0'', ''200.0'']]),
      [''Data saved to out.csv''])"
    unfolding d by simp
  from e i u1 u2 a extra_key_frame s show ?thesis by (intro conjI)
qed

section \<open>Export and import again\<close>

lemma written_row_named:
  "zip (map fst data) (map Some (written_row float_str data i)) =
     map (\<lambda>(name, c). (name, Some (csv_field float_str (c ! i)))) data"
  by (induction data) (auto simp: written_row_def)

lemma written_row_lookup:
  "map_of (zip (map fst data) (map Some (written_row float_str data i))) k =
     map_option (\<lambda>c. Some (csv_field float_str (c ! i))) (map_of data k)"
  unfolding written_row_named by (induction data) auto

lemma float_items_succeeds:
  assumes "\<forall>k \<in> set ks. keep k \<longrightarrow> (\<exists>t x. map_of d k = Some (Some t) \<and> pyfloat t = Some x)"
  shows "\<exists>r. float_items pyfloat keep d ks = Inr r"
  using assms
proof (induction ks)
  case Nil
  show ?case by simp
next
  case (Cons k ks)
  then obtain r where r: "float_items pyfloat keep d ks = Inr r" by auto
  show ?case
  proof (cases "keep k")
    case False
    with r show ?thesis by simp
  next
    case True
    with Cons.prems obtain t x where "map_of d k = Some (Some t)" "pyfloat t = Some x"
      by auto
    with True r show ?thesis by (simp add: float_cell_def)
  qed
qed

lemma import_written_row:
  assumes d: "distinct (map fst data)"
    and m: "map_of data ''Month'' = Some mc" "mc ! i = PStr label"
    and b: "map_of data ''Budget'' = Some bc" "bc ! i = PFloat b"
    and v: "\<forall>(k, c) \<in> set data. k \<noteq> ''Month'' \<longrightarrow>
              (\<exists>x. c ! i = PFloat x \<and> pyfloat (float_str x) = Some x)"
  shows "\<exists>e ic. import_row pyfloat (dict_row (map fst data) (written_row float_str data i)) s0 =
           (Returned,
            s0\<lparr>months := months s0 @ [Some label],
               budgets_data := budgets_data s0 @ [b],
               expenses_data := expenses_data s0 @ [e],
               incomes_data := incomes_data s0 @ [ic]\<rparr>)"
proof -
  let ?named = "zip (map fst data) (map Some (written_row float_str data i))"
  let ?row = "\<lparr>named = ?named, surplus = None\<rparr>"
  have row: "dict_row (map fst data) (written_row float_str data i) = ?row"
    by (rule dict_row_distinct_header [OF d]) (simp add: written_row_def)
  have lm: "map_of ?named ''Month'' = Some (Some label)"
    unfolding written_row_lookup using m by (simp add: csv_field_def)
  from b(1) have "(''Budget'', bc) \<in> set data" by (rule map_of_SomeD)
  with v b(2) have pb: "pyfloat (float_str b) = Some b" by auto
  have lb: "map_of ?named ''Budget'' = Some (Some (float_str b))"
    unfolding written_row_lookup using b by (simp add: csv_field_def)
  have cells: "\<exists>t x. map_of ?named k = Some (Some t) \<and> pyfloat t = Some x"
    if "k \<in> set (map fst ?named)" and "k \<noteq> ''Month''" for k
  proof -
    from that(1) have "k \<in> fst ` set data"
      by (simp add: written_row_def)
    then obtain c where c: "map_of data k = Some c"
      by (metis map_of_eq_None_iff not_Some_eq)
    then have "(k, c) \<in> set data" by (rule map_of_SomeD)
    with v that(2) obtain x where "c ! i = PFloat x" "pyfloat (float_str x) = Some x"
      by auto
    with c show ?thesis
      unfolding written_row_lookup by (simp add: csv_field_def)
  qed
  have "\<forall>k \<in> set (map fst ?named). k \<noteq> ''Month'' \<and> k \<noteq> ''Budget'' \<longrightarrow>
      (\<exists>t x. map_of ?named k = Some (Some t) \<and> pyfloat t = Some x)"
    using cells by blast
  from float_items_succeeds [OF this] obtain e where
    "float_items pyfloat (\<lambda>c. c \<noteq> ''Month'' \<and> c \<noteq> ''Budget'') ?named (map fst ?named) = Inr e"
    by blast
  then have e: "row_expenses pyfloat ?row = Inr e"
    by (simp add: row_expenses_def)
  have "\<forall>k \<in> set (map fst ?named). str_contains ''Income'' k \<longrightarrow>
      (\<exists>t x. map_of ?named k = Some (Some t) \<and> pyfloat t = Some x)"
    using cells income_name_not_reserved by blast
  from float_items_succeeds [OF this] obtain ic where
    "float_items pyfloat (str_contains ''Income'') ?named (map fst ?named) = Inr ic"
    by blast
  then have ic: "row_incomes pyfloat ?row = Inr ic"
    by (simp add: row_incomes_def)
  have "import_row pyfloat ?row s0 =
           (Returned,
            s0\<lparr>months := months s0 @ [Some label],
               budgets_data := budgets_data s0 @ [b],
               expenses_data := expenses_data s0 @ [e],
               incomes_data := incomes_data s0 @ [ic]\<rparr>)"
    unfolding import_row_def using lm lb pb e ic by (simp add: float_cell_def)
  then show ?thesis unfolding row by blast
qed

lemma import_written_rows:
  assumes d: "distinct (map fst data)" and ne: "data \<noteq> []"
    and m: "map_of data ''Month'' = Some (map label_val (months s))"
    and b: "map_of data ''Budget'' = Some (map PFloat (budgets_data s))"
    and lab: "\<forall>m \<in> set (months s). m \<noteq> None"
    and n: "\<forall>i \<in> set ix. i < length (months s) \<and> i < length (budgets_data s)"
    and v: "\<forall>i \<in> set ix. \<forall>(k, c) \<in> set data. k \<noteq> ''Month'' \<longrightarrow>
              (\<exists>x. c ! i = PFloat x \<and> pyfloat (float_str x) = Some x)"
  shows "\<exists>s'. import_rows pyfloat (map fst data)
                (map (\<lambda>i. Row (written_row float_str data i)) ix) s0 = (Returned, s', []) \<and>
              months s' = months s0 @ map (\<lambda>i. months s ! i) ix \<and>
              budgets_data s' = budgets_data s0 @ map (\<lambda>i. budgets_data s ! i) ix"
  using n v
proof (induction ix arbitrary: s0)
  case Nil
  show ?case by simp
next
  case (Cons i ix)
  from Cons.prems(1) have i: "i < length (months s)" "i < length (budgets_data s)" by simp_all
  from i(1) lab obtain label where l: "months s ! i = Some label"
    by (metis nth_mem not_Some_eq)
  with i(1) have ml: "map label_val (months s) ! i = PStr label"
    by (simp add: label_val_def)
  from i(2) have bl: "map PFloat (budgets_data s) ! i = PFloat (budgets_data s ! i)"
    by simp
  from Cons.prems(2) have vi: "\<forall>(k, c) \<in> set data. k \<noteq> ''Month'' \<longrightarrow>
              (\<exists>x. c ! i = PFloat x \<and> pyfloat (float_str x) = Some x)"
    by simp
  from import_written_row [OF d m ml b bl vi, of s0] obtain e ic where
    r: "import_row pyfloat (dict_row (map fst data) (written_row float_str data i)) s0 =
         (Returned,
          s0\<lparr>months := months s0 @ [Some label],
             budgets_data := budgets_data s0 @ [budgets_data s ! i],
             expenses_data := expenses_data s0 @ [e],
             incomes_data := incomes_data s0 @ [ic]\<rparr>)"
    by blast
  let ?s1 = "s0\<lparr>months := months s0 @ [Some label],
             budgets_data := budgets_data s0 @ [budgets_data s ! i],
             expenses_data := expenses_data s0 @ [e],
             incomes_data := incomes_data s0 @ [ic]\<rparr>"
  from Cons.prems have "\<forall>i \<in> set ix. i < length (months s) \<and> i < length (budgets_data s)"
    and "\<forall>i \<in> set ix. \<forall>(k, c) \<in> set data. k \<noteq> ''Month'' \<longrightarrow>
              (\<exists>x. c ! i = PFloat x \<and> pyfloat (float_str x) = Some x)"
    by simp_all
  from Cons.IH [OF this, of ?s1] obtain s' where
    s': "import_rows pyfloat (map fst data)
           (map (\<lambda>i. Row (written_row float_str data i)) ix) ?s1 = (Returned, s', [])"
    "months s' = months ?s1 @ map (\<lambda>i. months s ! i) ix"
    "budgets_data s' = budgets_data ?s1 @ map (\<lambda>i. budgets_data s ! i) ix"
    by blast
  from ne have w: "written_row float_str data i \<noteq> []"
    by (simp add: written_row_def)
  have "import_rows pyfloat (map fst data)
          (map (\<lambda>i. Row (written_row float_str data i)) (i # ix)) s0 = (Returned, s', [])"
    using w r s'(1) by simp
  moreover have "months s' = months s0 @ map (\<lambda>i. months s ! i) (i # ix)"
    using s'(2) l by simp
  moreover have "budgets_data s' = budgets_data s0 @ map (\<lambda>i. budgets_data s ! i) (i # ix)"
    using s'(3) by simp
  ultimately show ?case by blast
qed

lemma has_keys_of_value:
  assumes "has_keys_of d0 ds" and "k \<in> set (map fst d0)" and "i < length ds"
  shows "the (map_of (ds ! i) k) \<in> snd ` set (ds ! i)"
proof -
  from assms(3) have "ds ! i \<in> set ds" by simp
  with assms(1,2) have "k \<in> fst ` set (ds ! i)"
    by (auto simp: has_keys_of_def)
  then obtain x where x: "map_of (ds ! i) k = Some x"
    by (metis map_of_eq_None_iff not_Some_eq)
  then have "(k, x) \<in> set (ds ! i)" by (rule map_of_SomeD)
  then have "x \<in> snd ` set (ds ! i)" by force
  with x show ?thesis by simp
qed

lemma flat_table_cells:
  assumes t: "flat_table s = Inr data" and a: "aligned s"
    and he: "has_keys_of (hd (expenses_data s)) (expenses_data s)"
    and hi: "has_keys_of (hd (incomes_data s)) (incomes_data s)"
    and rb: "reads_back pyfloat float_str s"
    and i: "i < length (months s)" and kc: "(k, c) \<in> set data" and k: "k \<noteq> ''Month''"
  shows "\<exists>x. c ! i = PFloat x \<and> pyfloat (float_str x) = Some x"
proof -
  from a i have il: "i < length (budgets_data s)" "i < length (expenses_data s)"
    "i < length (incomes_data s)" by (simp_all add: aligned_def)
  from flat_table_distinct(1) [OF t] kc have "map_of data k = Some c" by simp
  then have c: "Some c =
        (if k \<in> set (map fst (hd (incomes_data s)))
         then Some (map (\<lambda>d. PFloat (the (map_of d k))) (incomes_data s))
         else if k \<in> set (map fst (hd (expenses_data s)))
         then Some (map (\<lambda>d. PFloat (the (map_of d k))) (expenses_data s))
         else if k = ''Month'' then Some (map label_val (months s))
         else if k = ''Budget'' then Some (map PFloat (budgets_data s))
         else None)"
    unfolding flat_table_Inr(6) [OF t, of k] by (rule sym)
  have rd: "pyfloat (float_str x) = Some x"
    if "x \<in> set (budgets_data s) \<or> x \<in> snd ` set (expenses_data s ! i) \<or>
        x \<in> snd ` set (incomes_data s ! i)" for x
  proof -
    from il have "expenses_data s ! i \<in> set (expenses_data s)"
      "incomes_data s ! i \<in> set (incomes_data s)" by simp_all
    with that have "x \<in> set (budgets_data s) \<union>
             (\<Union>d \<in> set (expenses_data s) \<union> set (incomes_data s). snd ` set d)"
      by blast
    with rb show ?thesis unfolding reads_back_def by (rule bspec)
  qed
  show ?thesis
  proof (cases "k \<in> set (map fst (hd (incomes_data s)))")
    case True
    with c il have "c ! i = PFloat (the (map_of (incomes_data s ! i) k))" by simp
    moreover from has_keys_of_value [OF hi True il(3)]
    have "pyfloat (float_str (the (map_of (incomes_data s ! i) k))) =
        Some (the (map_of (incomes_data s ! i) k))"
      by (intro rd) simp
    ultimately show ?thesis by blast
  next
    case ni: False
    show ?thesis
    proof (cases "k \<in> set (map fst (hd (expenses_data s)))")
      case True
      with c ni il have "c ! i = PFloat (the (map_of (expenses_data s ! i) k))" by simp
      moreover from has_keys_of_value [OF he True il(2)]
      have "pyfloat (float_str (the (map_of (expenses_data s ! i) k))) =
          Some (the (map_of (expenses_data s ! i) k))"
        by (intro rd) simp
      ultimately show ?thesis by blast
    next
      case False
      with c ni k have kb: "k = ''Budget''" and cb: "c = map PFloat (budgets_data s)"
        by (simp_all split: if_splits)
      from cb il have "c ! i = PFloat (budgets_data s ! i)" by simp
      moreover from il have "pyfloat (float_str (budgets_data s ! i)) = Some (budgets_data s ! i)"
        by (intro rd) simp
      ultimately show ?thesis by blast
    qed
  qed
qed

lemma short_row_import:
  "collect_monthly_data demo_float short_row_data (Some ''in.csv'') init [] =
     (Returned, unlabelled_record, [], [])"
  by (simp add: collect_monthly_data_def collect_csv_def short_row_data_def import_row_def
      dict_row_def row_expenses_def row_incomes_def float_cell_def demo_float_def init_def
      unlabelled_record_def)

text \<open>
  C5, as the claim states it, fails: the file \<open>in.csv\<close> has the header \<open>Budget, Month\<close>
  and one row with the single cell \<open>1000\<close>, and it is imported as one record whose month
  label is \<^verbatim>\<open>None\<close>. Its export holds the empty string for that label, and importing
  the export gives the label \<open>''\<close>: the months sequence is not reproduced.
\<close>

theorem round_trip_missing_label_counterexample:
  "collect_monthly_data demo_float short_row_data (Some ''in.csv'') init [] =
     (Returned, unlabelled_record, [], []) \<and>
   save_data demo_write demo_str unlabelled_record ''out.csv'' short_row_data =
     (Returned,
      short_row_data(''out.csv'' \<mapsto> [Row [''Month'', ''Budget''], Row ['''', ''1000.0'']]),
      [''Data saved to out.csv'']) \<and>
   collect_monthly_data demo_float
     (short_row_data(''out.csv'' \<mapsto> [Row [''Month'', ''Budget''], Row ['''', ''1000.0'']]))
     (Some ''out.csv'') init [] = (Returned, empty_label_record, [], []) \<and>
   months empty_label_record \<noteq> months unlabelled_record"
  by (simp add: collect_monthly_data_def collect_csv_def short_row_data_def import_row_def
      dict_row_def row_expenses_def row_incomes_def float_cell_def demo_float_def init_def
      unlabelled_record_def empty_label_record_def save_data_def label_val_def csv_field_def
      demo_str_def write_file_def table_rows_def demo_write_def)

text \<open>
  The round trip also depends on the file system. A label holding a carriage return is
  written as it is (line 140 opens the file with \<^verbatim>\<open>newline=''\<close>) and read back with
  a line feed in its place (line 32 opens the file in text mode); and a path that
  \<^verbatim>\<open>open\<close> refuses makes \<^verbatim>\<open>save_data\<close> raise, with nothing written.
\<close>

lemma round_trip_carriage_return:
  "save_data demo_write demo_str cr_record ''out.csv'' Map.empty =
     (Returned,
      Map.empty(''out.csv'' \<mapsto>
        [Row [''Month'', ''Budget''], Row [[CHR ''a'', CHR 0x0A, CHR ''b''], ''1000.0'']]),
      [''Data saved to out.csv'']) \<and>
   collect_monthly_data demo_float
     (Map.empty(''out.csv'' \<mapsto>
        [Row [''Month'', ''Budget''], Row [[CHR ''a'', CHR 0x0A, CHR ''b''], ''1000.0'']]))
     (Some ''out.csv'') init [] = (Returned, lf_record, [], []) \<and>
   months lf_record \<noteq> months cr_record"
  by (simp add: collect_monthly_data_def collect_csv_def import_row_def
      dict_row_def row_expenses_def row_incomes_def float_cell_def demo_float_def init_def
      cr_record_def lf_record_def save_data_def label_val_def csv_field_def
      demo_str_def write_file_def table_rows_def demo_write_def)

lemma save_data_unwritable_path:
  "save_data demo_write demo_str test_record ''/'' test_data =
     (Raised IsADirectoryError, test_data, [])"
  by (simp add: save_data_def test_record_def test_data_def label_val_def write_file_def
      demo_write_def)

text \<open>
  C5, amended. Take a store with at least one month whose four collections have the
  same length, whose month labels are all strings, whose months all have the expense and
  income keys of record 0, with neither \<open>Month\<close> nor \<open>Budget\<close> among the keys of record
  0, and whose numbers \<^verbatim>\<open>float\<close> reads back from what \<^verbatim>\<open>str\<close> writes; and take a
  non-empty path at which the header and the rows of the table of that store are written
  without an exception and read back cell for cell as the strings written. Then
  \<^verbatim>\<open>save_data\<close> returns, leaving that file, and importing the file with
  \<^verbatim>\<open>collect_monthly_data\<close> into the empty store returns normally, reads no input,
  prints nothing, and gives the same months sequence and the same budgets sequence.
\<close>

theorem export_import_round_trip:
  assumes a: "aligned s" and ne: "months s \<noteq> []"
    and lab: "\<forall>m \<in> set (months s). m \<noteq> None"
    and he: "has_keys_of (hd (expenses_data s)) (expenses_data s)"
    and hi: "has_keys_of (hd (incomes_data s)) (incomes_data s)"
    and res: "''Month'' \<notin> fst ` set (hd (expenses_data s)) \<union> fst ` set (hd (incomes_data s))"
      "''Budget'' \<notin> fst ` set (hd (expenses_data s)) \<union> fst ` set (hd (incomes_data s))"
    and rb: "reads_back pyfloat float_str s"
    and fn: "filename \<noteq> []"
    and fr: "to_dataframe s = Inr df"
    and wr: "write_csv filename (fs filename) (table_rows float_str df) =
               (Returned, Some (map Row (table_rows float_str df)))"
  shows "save_data write_csv float_str s filename fs =
           (Returned, fs(filename \<mapsto> map Row (table_rows float_str df)),
            [''Data saved to '' @ filename]) \<and>
         (\<exists>s'. collect_monthly_data pyfloat
                 (fs(filename \<mapsto> map Row (table_rows float_str df))) (Some filename) init inp =
                 (Returned, s', inp, []) \<and>
               months s' = months s \<and> budgets_data s' = budgets_data s)"
proof -
  from a ne have e0: "expenses_data s \<noteq> []" and i0: "incomes_data s \<noteq> []"
    by (auto simp: aligned_def)
  from he hi have "\<exists>data. flat_table s = Inr data"
    by (intro iffD2 [OF flat_table_uniform [OF e0 i0]] conjI)
  then obtain data where t0: "flat_table s = Inr data" ..
  from to_dataframe_aligned_Inr [OF t0 a] fr have "data = df" by simp
  with t0 have t: "flat_table s = Inr df" by simp
  note d = flat_table_distinct [OF t]
  have m: "map_of df ''Month'' = Some (map label_val (months s))"
    unfolding flat_table_Inr(6) [OF t] using res(1) by simp
  have b: "map_of df ''Budget'' = Some (map PFloat (budgets_data s))"
    unfolding flat_table_Inr(6) [OF t] using res(2) by simp
  let ?n = "length (months s)"
  let ?rows = "map (\<lambda>i. Row (written_row float_str df i)) [0..<?n]"
  let ?fs' = "fs(filename \<mapsto> map Row (table_rows float_str df))"
  have tr: "map Row (table_rows float_str df) = Row (map fst df) # ?rows"
    unfolding table_rows_aligned [OF t a] by (simp add: comp_def)
  have sv: "save_data write_csv float_str s filename fs =
      (Returned, ?fs', [''Data saved to '' @ filename])"
    using t wr by (simp add: save_data_flat_table write_file_def)
  from a have n: "\<forall>i \<in> set [0..<?n]. i < length (months s) \<and> i < length (budgets_data s)"
    by (simp add: aligned_def)
  have v: "\<forall>i \<in> set [0..<?n]. \<forall>(k, c) \<in> set df. k \<noteq> ''Month'' \<longrightarrow>
              (\<exists>x. c ! i = PFloat x \<and> pyfloat (float_str x) = Some x)"
    using flat_table_cells [OF t a he hi rb] by auto
  from import_written_rows [OF d(1) d(2) m b lab n v, of init] obtain s' where
    r: "import_rows pyfloat (map fst df) ?rows init = (Returned, s', [])" and
    ms: "months s' = months init @ map (\<lambda>i. months s ! i) [0..<?n]" and
    bs: "budgets_data s' = budgets_data init @ map (\<lambda>i. budgets_data s ! i) [0..<?n]"
    by blast
  from a have nb: "?n = length (budgets_data s)" by (simp add: aligned_def)
  have ms': "months s' = months s"
    unfolding ms by (simp add: init_def map_nth)
  have bs': "budgets_data s' = budgets_data s"
    unfolding bs nb by (simp add: init_def map_nth)
  have "collect_monthly_data pyfloat ?fs' (Some filename) init inp = (Returned, s', inp, [])"
    using fn r unfolding tr by (simp add: collect_monthly_data_def collect_csv_def)
  with ms' bs' have "\<exists>s'. collect_monthly_data pyfloat ?fs' (Some filename) init inp =
                 (Returned, s', inp, []) \<and>
               months s' = months s \<and> budgets_data s' = budgets_data s"
    by (intro exI [of _ s'] conjI)
  with sv show ?thesis by (intro conjI)
qed

lemma test_record_frame:
  "to_dataframe test_record =
     Inr [(''Month'', [PStr ''1/2023'']), (''Budget'', [PFloat 1000]),
          (''Extras'', [PFloat 200]), (''Utilities'', [PFloat 50]),
          (''Salary'', [PFloat 5000]), (''Investments'', [PFloat 100])]"
  by (simp add: to_dataframe_def test_record_def label_val_def)

theorem export_import_round_trip_witness:
  "aligned test_record \<and> months test_record \<noteq> [] \<and>
   has_keys_of (hd (expenses_data test_record)) (expenses_data test_record) \<and>
   has_keys_of (hd (incomes_data test_record)) (incomes_data test_record) \<and>
   reads_back demo_float demo_str test_record \<and> ''out.csv'' \<noteq> [] \<and>
   save_data demo_write demo_str test_record ''out.csv'' test_data =
     (Returned,
      test_data(''out.csv'' \<mapsto>
        [Row [''Month'', ''Budget'', ''Extras'', ''Utilities'', ''Salary'', ''Investments''],
         Row [''1/2023'', ''1000.0'', ''200.0'', ''50.0'', ''5000.0'', ''100.0'']]),
      [''Data saved to out.csv'']) \<and>
   (\<exists>s'. collect_monthly_data demo_float
      (test_data(''out.csv'' \<mapsto>
        [Row [''Month'', ''Budget'', ''Extras'', ''Utilities'', ''Salary'', ''Investments''],
         Row [''1/2023'', ''1000.0'', ''200.0'', ''50.0'', ''5000.0'', ''100.0'']]))
      (Some ''out.csv'') init [] = (Returned, s', [], []) \<and>
      months s' = months test_record \<and> budgets_data s' = budgets_data test_record)"
proof -
  let ?df = "[(''Month'', [PStr ''1/2023'']), (''Budget'', [PFloat 1000]),
          (''Extras'', [PFloat 200]), (''Utilities'', [PFloat 50]),
          (''Salary'', [PFloat 5000]), (''Investments'', [PFloat 100])]"
  have a: "aligned test_record" and ne: "months test_record \<noteq> []"
    and lab: "\<forall>m \<in> set (months test_record). m \<noteq> None"
    by (simp_all add: aligned_def test_record_def)
  have he: "has_keys_of (hd (expenses_data test_record)) (expenses_data test_record)"
    and hi: "has_keys_of (hd (incomes_data test_record)) (incomes_data test_record)"
    by (simp_all add: has_keys_of_def test_record_def)
  have res: "''Month'' \<notin> fst ` set (hd (expenses_data test_record))
               \<union> fst ` set (hd (incomes_data test_record))"
    "''Budget'' \<notin> fst ` set (hd (expenses_data test_record))
               \<union> fst ` set (hd (incomes_data test_record))"
    by (simp_all add: test_record_def)
  have rb: "reads_back demo_float demo_str test_record"
    by (simp add: reads_back_def test_record_def demo_float_def demo_str_def)
  have fn: "''out.csv'' \<noteq> []" by simp
  have rows: "map Row (table_rows demo_str ?df) =
      [Row [''Month'', ''Budget'', ''Extras'', ''Utilities'', ''Salary'', ''Investments''],
       Row [''1/2023'', ''1000.0'', ''200.0'', ''50.0'', ''5000.0'', ''100.0'']]"
    by (simp add: table_rows_def csv_field_def demo_str_def)
  have wr: "demo_write ''out.csv'' (test_data ''out.csv'') (table_rows demo_str ?df) =
      (Returned, Some (map Row (table_rows demo_str ?df)))"
    by (simp add: demo_write_def table_rows_def csv_field_def demo_str_def)
  from export_import_round_trip [where s = test_record and fs = test_data
      and write_csv = demo_write and filename = "''out.csv''" and inp = "[]",
      OF a ne lab he hi res rb fn test_record_frame wr]
  have "save_data demo_write demo_str test_record ''out.csv'' test_data =
           (Returned, test_data(''out.csv'' \<mapsto> map Row (table_rows demo_str ?df)),
            [''Data saved to '' @ ''out.csv'']) \<and>
         (\<exists>s'. collect_monthly_data demo_float
                 (test_data(''out.csv'' \<mapsto> map Row (table_rows demo_str ?df)))
                 (Some ''out.csv'') init [] = (Returned, s', [], []) \<and>
               months s' = months test_record \<and> budgets_data s' = budgets_data test_record)" .
  then have c: "save_data demo_write demo_str test_record ''out.csv'' test_data =
     (Returned,
      test_data(''out.csv'' \<mapsto>
        [Row [''Month'', ''Budget'', ''Extras'', ''Utilities'', ''Salary'', ''Investments''],
         Row [''1/2023'', ''1000.0'', ''200.0'', ''50.0'', ''5000.0'', ''100.0'']]),
      [''Data saved to out.csv'']) \<and>
   (\<exists>s'. collect_monthly_data demo_float
      (test_data(''out.csv'' \<mapsto>
        [Row [''Month'', ''Budget'', ''Extras'', ''Utilities'', ''Salary'', ''Investments''],
         Row [''1/2023'', ''1000.0'', ''200.0'', ''50.0'', ''5000.0'', ''100.0'']]))
      (Some ''out.csv'') init [] = (Returned, s', [], []) \<and>
      months s' = months test_record \<and> budgets_data s' = budgets_data test_record)"
    unfolding rows by simp
  note c1 = c [THEN conjunct1] and c2 = c [THEN conjunct2]
  from a ne he hi rb fn c1 c2 show ?thesis by (intro conjI)
qed

section \<open>What every ingestion establishes\<close>

lemma import_row_reserved_free:
  assumes "reserved_free s" and "import_row pyfloat row s = (r, s')"
  shows "reserved_free s'"
  using import_row_lists [OF assms(2)]
proof
  assume "expenses_data s' = expenses_data s \<and> incomes_data s' = incomes_data s"
  with assms(1) show ?thesis by (simp add: reserved_free_def)
next
  assume "\<exists>e i. row_expenses pyfloat row = Inr e \<and> row_incomes pyfloat row = Inr i \<and>
            expenses_data s' = expenses_data s @ [e] \<and> incomes_data s' = incomes_data s @ [i]"
  then obtain e i where e: "row_expenses pyfloat row = Inr e"
    and i: "row_incomes pyfloat row = Inr i"
    and s': "expenses_data s' = expenses_data s @ [e]" "incomes_data s' = incomes_data s @ [i]"
    by auto
  have "''Month'' \<notin> set (map fst e) \<and> ''Budget'' \<notin> set (map fst e)"
    unfolding row_expenses_result(2) [OF e] by simp
  moreover have "''Month'' \<notin> set (map fst i) \<and> ''Budget'' \<notin> set (map fst i)"
    unfolding row_incomes_result(1) [OF i] by simp
  ultimately show ?thesis
    using assms(1) s' by (auto simp: reserved_free_def)
qed

lemma import_rows_reserved_free:
  "reserved_free s \<Longrightarrow> import_rows pyfloat fieldnames evs s = (res, s', out)
    \<Longrightarrow> reserved_free s'"
proof (induction pyfloat fieldnames evs s rule: import_rows.induct)
  case (3 pyfloat fieldnames r evs s)
  show ?case
  proof (cases "r = []")
    case True
    with 3 show ?thesis by simp
  next
    case False
    obtain o1 s1 where s1: "import_row pyfloat (dict_row fieldnames r) s = (o1, s1)"
      by (cases "import_row pyfloat (dict_row fieldnames r) s")
    from import_row_reserved_free [OF "3.prems"(1) s1] have w: "reserved_free s1" .
    show ?thesis
    proof (cases o1)
      case Returned
      with False s1 "3.prems"(2) have "import_rows pyfloat fieldnames evs s1 = (res, s', out)"
        by simp
      from "3.IH"(2) [OF False s1 [symmetric] Returned w this] show ?thesis .
    next
      case (Raised e)
      with False s1 "3.prems"(2) have "s' = s1" by simp
      with w show ?thesis by simp
    qed
  qed
qed auto

lemma collect_month_lists:
  assumes "collect_month pyfloat m s inp = (r, s', inp', out)"
  shows "(expenses_data s' = expenses_data s \<and> incomes_data s' = incomes_data s) \<or>
         (\<exists>e u sa iv.
            expenses_data s' = expenses_data s @ [[(''Extras'', e), (''Utilities'', u)]] \<and>
            incomes_data s' = incomes_data s @ [[(''Salary'', sa), (''Investments'', iv)]])"
  using assms
  by (auto simp: collect_month_def Let_def split: prod.splits sum.splits)

lemma collect_month_reserved_free:
  assumes "reserved_free s" and "collect_month pyfloat m s inp = (r, s', inp', out)"
  shows "reserved_free s'"
  using collect_month_lists [OF assms(2)]
proof
  assume "expenses_data s' = expenses_data s \<and> incomes_data s' = incomes_data s"
  with assms(1) show ?thesis by (simp add: reserved_free_def)
next
  assume "\<exists>e u sa iv.
            expenses_data s' = expenses_data s @ [[(''Extras'', e), (''Utilities'', u)]] \<and>
            incomes_data s' = incomes_data s @ [[(''Salary'', sa), (''Investments'', iv)]]"
  then obtain e u sa iv where
    "expenses_data s' = expenses_data s @ [[(''Extras'', e), (''Utilities'', u)]]"
    "incomes_data s' = incomes_data s @ [[(''Salary'', sa), (''Investments'', iv)]]"
    by blast
  with assms(1) show ?thesis by (auto simp: reserved_free_def)
qed

lemma collect_months_reserved_free:
  "reserved_free s \<Longrightarrow> collect_months pyfloat ms s inp = (r, s', inp', out) \<Longrightarrow> reserved_free s'"
proof (induction ms arbitrary: s inp s' inp' out)
  case (Cons m ms)
  then show ?case
    by (auto split: prod.splits outcome.splits dest: collect_month_reserved_free)
qed auto

lemma collect_monthly_data_reserved_free:
  assumes "reserved_free s"
    and "collect_monthly_data pyfloat fs input_csv s inp = (r, s', inp', out)"
  shows "reserved_free s'"
  using assms unfolding collect_monthly_data_def
  by (auto simp: collect_csv_def split: if_splits prod.splits option.splits list.splits
      reader_event.splits dest: import_rows_reserved_free collect_months_reserved_free)

lemma reserved_free_init: "reserved_free init"
  by (simp add: reserved_free_def init_def)

end
